theory Spec2Isabelle
  imports Main "HOL-Library.Word"
begin

unbundle bit_operations_syntax

section \<open>The feature flags of \<open>useFocusTrap\<close>\<close>

text \<open>
  \<^verbatim>\<open>export enum Features\<close> of \<^verbatim>\<open>hooks/use-focus-trap.ts\<close>. The members are
  numbers built with \<^verbatim>\<open>1 << n\<close> and tested with \<^verbatim>\<open>&\<close>, which JavaScript
  evaluates on 32-bit integers: a feature value is a \<open>32 word\<close>, \<^verbatim>\<open>1 << n\<close> is
  \<open>push_bit n 1\<close>, and a number is truthy when it is not \<open>0\<close>.
\<close>

type_synonym features = "32 word"

definition Features_None :: features where
  "Features_None = push_bit 0 1"

definition Features_InitialFocus :: features where
  "Features_InitialFocus = push_bit 1 1"

definition Features_TabLock :: features where
  "Features_TabLock = push_bit 2 1"

definition Features_FocusLock :: features where
  "Features_FocusLock = push_bit 3 1"

definition Features_RestoreFocus :: features where
  "Features_RestoreFocus = push_bit 4 1"

definition Features_All :: features where
  "Features_All =
     Features_InitialFocus OR Features_TabLock OR Features_FocusLock OR Features_RestoreFocus"

text \<open>
  The four features as a type of their own, the bit each one owns, and the bitwise
  union of a list of them: the set reading of a feature value, against which the
  \<^verbatim>\<open>features.value & Features.X\<close> tests of the hook are compared.
\<close>

datatype feature = InitialFocus | TabLock | FocusLock | RestoreFocus

fun feature_bit :: "feature \<Rightarrow> features" where
  "feature_bit InitialFocus = Features_InitialFocus"
| "feature_bit TabLock = Features_TabLock"
| "feature_bit FocusLock = Features_FocusLock"
| "feature_bit RestoreFocus = Features_RestoreFocus"

fun feature_index :: "feature \<Rightarrow> nat" where
  "feature_index InitialFocus = 1"
| "feature_index TabLock = 2"
| "feature_index FocusLock = 3"
| "feature_index RestoreFocus = 4"

fun union_of :: "feature list \<Rightarrow> features" where
  "union_of [] = 0"
| "union_of (f # fs) = feature_bit f OR union_of fs"

definition enabled :: "features \<Rightarrow> feature \<Rightarrow> bool" where
  "enabled v f = (v AND feature_bit f \<noteq> 0)"

section \<open>Elements, references and the platform\<close>

text \<open>
  An \<^verbatim>\<open>HTMLElement\<close> is known by its identity, a number. A
  \<^verbatim>\<open>Ref<HTMLElement | null>\<close> is an object of its own, also known by its
  identity; what its \<^verbatim>\<open>.value\<close> holds is read from the \<open>refs\<close> store of the
  trap (\<open>None\<close> is \<^verbatim>\<open>null\<close>), so that a \<^verbatim>\<open>Set\<close> of refs compares
  its members by identity as JavaScript does.
\<close>

type_synonym elem = nat
type_synonym eref = nat

text \<open>
  Modelled from the spec: \<^verbatim>\<open>utils/focus-management\<close> (\<^verbatim>\<open>Focus\<close>,
  \<^verbatim>\<open>FocusResult\<close>, \<^verbatim>\<open>focusIn\<close>, \<^verbatim>\<open>focusElement\<close>) is imported by the
  hook and is not among the sources. The spec gives the traversal the two results
  Success and Error and the directions first, next, previous and last, each with or
  without wrap-around.
\<close>

datatype FocusResult = Error | Success

datatype Focus = First | Previous | Next | Last

text \<open>
  The browser and the two imported helpers are parameters of every handler: a world
  \<open>'w\<close> of the page, \<^verbatim>\<open>document.activeElement\<close> read from it,
  \<^verbatim>\<open>focusElement\<close> and \<^verbatim>\<open>focusIn\<close> changing it, and \<^verbatim>\<open>Node.contains\<close>
  between two elements (the tree of the page is taken as fixed while the handlers
  run). Nothing is assumed about them.
\<close>

record 'w platform =
  activeElement :: "'w \<Rightarrow> elem option"
  focusElement :: "elem option \<Rightarrow> 'w \<Rightarrow> 'w"
  focusIn :: "elem \<Rightarrow> Focus \<Rightarrow> bool \<Rightarrow> 'w \<Rightarrow> FocusResult \<times> 'w"
  nodeContains :: "elem \<Rightarrow> elem \<Rightarrow> bool"

text \<open>\<^verbatim>\<open>node.contains(other)\<close>: \<^verbatim>\<open>false\<close> for \<^verbatim>\<open>null\<close>.\<close>

definition Node_contains :: "'w platform \<Rightarrow> elem \<Rightarrow> elem option \<Rightarrow> bool" where
  "Node_contains P node other =
     (case other of None \<Rightarrow> False | Some e \<Rightarrow> nodeContains P node e)"

text \<open>
  Modelled from the spec: \<^verbatim>\<open>Keys.Tab\<close> of \<^verbatim>\<open>keyboard.ts\<close>, which is not among
  the sources; the spec calls it the Tab key.
\<close>

definition Keys_Tab :: string where
  "Keys_Tab = ''Tab''"

section \<open>JavaScript values, sets and events\<close>

text \<open>
  The values a watcher callback receives in \<^verbatim>\<open>newValues\<close> and
  \<^verbatim>\<open>prevValues\<close>, and the members of the component object: \<^verbatim>\<open>===\<close> on them is
  equality (objects by identity).
\<close>

datatype jsval =
  JUndefined | JNull | JBool bool | JStr string | JElem elem | JObj nat | JRef features

definition js_index :: "jsval list \<Rightarrow> nat \<Rightarrow> jsval" where
  "js_index xs idx = (if idx < length xs then xs ! idx else JUndefined)"

text \<open>\<^verbatim>\<open>newValues.every((value, idx) => prevValues[idx] === value)\<close>\<close>

definition every_same :: "jsval list \<Rightarrow> jsval list \<Rightarrow> bool" where
  "every_same newValues prevValues =
     list_all (\<lambda>idx. js_index prevValues idx = newValues ! idx) [0..<length newValues]"

definition member :: "(string \<times> jsval) list \<Rightarrow> string \<Rightarrow> jsval" where
  "member obj k = (case map_of obj k of None \<Rightarrow> JUndefined | Some v \<Rightarrow> v)"

text \<open>A \<^verbatim>\<open>Set\<close>: its members in insertion order, each once.\<close>

definition Set_add :: "'a list \<Rightarrow> 'a \<Rightarrow> 'a list" where
  "Set_add xs x = (if x \<in> set xs then xs else xs @ [x])"

definition new_Set :: "'a list \<Rightarrow> 'a list" where
  "new_Set iterable = foldl Set_add [] iterable"

definition Set_size :: "'a list \<Rightarrow> nat" where
  "Set_size xs = length xs"

text \<open>
  An event carries the two flags \<^verbatim>\<open>preventDefault()\<close> and
  \<^verbatim>\<open>stopPropagation()\<close> set. The target of a focus event is \<^verbatim>\<open>null\<close>, an
  object that is not an \<^verbatim>\<open>HTMLElement\<close> (the window, the document), or an element.
\<close>

record event =
  defaultPrevented :: bool
  propagationStopped :: bool

record keyboard_event = event +
  key :: string
  shiftKey :: bool

datatype EventTarget = NullTarget | NotHTMLElement | HTMLElement elem

record focus_event = event +
  target :: EventTarget

definition preventDefault :: "('a event_scheme) \<Rightarrow> 'a event_scheme" where
  "preventDefault ev = ev\<lparr>defaultPrevented := True\<rparr>"

definition stopPropagation :: "('a event_scheme) \<Rightarrow> 'a event_scheme" where
  "stopPropagation ev = ev\<lparr>propagationStopped := True\<rparr>"

section \<open>The state of a trap\<close>

text \<open>
  What \<^verbatim>\<open>useFocusTrap\<close> closes over: its three arguments (the \<open>container\<close> ref,
  the current value of the \<open>features\<close> ref, the current value of the \<open>options\<close>
  ref), the refs \<open>restoreElement\<close> and \<open>previousActiveElement\<close>, the plain object
  \<open>mounted\<close>, and whether the second watcher has handed a closure to
  \<^verbatim>\<open>onInvalidate\<close>. The world of the page is threaded through, and every call
  of \<^verbatim>\<open>focusElement\<close> and \<^verbatim>\<open>focusIn\<close> is logged in \<open>calls\<close>.
\<close>

datatype call = FocusElement "elem option" | FocusIn elem Focus bool

record options =
  initialFocus :: "eref option"
  containers :: "eref list option"

record 'w trap =
  features :: features
  refs :: "eref \<Rightarrow> elem option"
  container :: eref
  options :: options
  restoreElement :: "elem option"
  previousActiveElement :: "elem option"
  mounted :: bool
  onInvalidate :: bool
  world :: 'w
  calls :: "call list"

definition call_focusElement :: "'w platform \<Rightarrow> elem option \<Rightarrow> 'w trap \<Rightarrow> 'w trap" where
  "call_focusElement P e s =
     s\<lparr>world := focusElement P e (world s), calls := calls s @ [FocusElement e]\<rparr>"

definition call_focusIn ::
  "'w platform \<Rightarrow> elem \<Rightarrow> Focus \<Rightarrow> bool \<Rightarrow> 'w trap \<Rightarrow> FocusResult \<times> 'w trap" where
  "call_focusIn P root d wrap s =
     (let (r, w) = focusIn P root d wrap (world s)
      in (r, s\<lparr>world := w, calls := calls s @ [FocusIn root d wrap]\<rparr>))"

text \<open>\<^verbatim>\<open>document.activeElement\<close>\<close>

definition document_activeElement :: "'w platform \<Rightarrow> 'w trap \<Rightarrow> elem option" where
  "document_activeElement P s = activeElement P (world s)"

text \<open>
  The parameter \<^verbatim>\<open>features: Ref<Features> = ref(Features.All)\<close>: the default
  stands for an argument that is \<^verbatim>\<open>undefined\<close>, and for no other. A ref holds
  its number; the type of the parameter admits nothing else, and an object that is
  no ref has no numeric \<^verbatim>\<open>.value\<close>, which \<^verbatim>\<open>&\<close> reads as 0.
\<close>

definition features_param :: "jsval \<Rightarrow> features" where
  "features_param arg =
     (case arg of JUndefined \<Rightarrow> Features_All | JRef v \<Rightarrow> v | _ \<Rightarrow> 0)"

text \<open>The parameter \<^verbatim>\<open>options = ref({})\<close>.\<close>

definition options_param :: "options option \<Rightarrow> options" where
  "options_param arg =
     (case arg of None \<Rightarrow> \<lparr>initialFocus = None, containers = None\<rparr> | Some v \<Rightarrow> v)"

text \<open>
  The body of \<^verbatim>\<open>useFocusTrap\<close> before \<^verbatim>\<open>onMounted\<close>: \<open>window_defined\<close> is
  \<^verbatim>\<open>typeof window !== 'undefined'\<close>.
\<close>

definition useFocusTrap ::
  "'w platform \<Rightarrow> bool \<Rightarrow> (eref \<Rightarrow> elem option) \<Rightarrow> 'w \<Rightarrow>
   eref \<Rightarrow> jsval \<Rightarrow> options option \<Rightarrow> 'w trap" where
  "useFocusTrap P window_defined store w container_arg features_arg options_arg =
     \<lparr>features = features_param features_arg,
      refs = store,
      container = container_arg,
      options = options_param options_arg,
      restoreElement = (if window_defined then activeElement P w else None),
      previousActiveElement = None,
      mounted = False,
      onInvalidate = False,
      world = w,
      calls = []\<rparr>"

definition featuresRestoreFocus :: "'w trap \<Rightarrow> bool" where
  "featuresRestoreFocus s = (features s AND Features_RestoreFocus \<noteq> 0)"

definition featuresInitialFocus :: "'w trap \<Rightarrow> bool" where
  "featuresInitialFocus s = (features s AND Features_InitialFocus \<noteq> 0)"

text \<open>\<^verbatim>\<open>options.value.initialFocus?.value\<close>\<close>

definition initialFocus_value :: "'w trap \<Rightarrow> elem option" where
  "initialFocus_value s =
     (case initialFocus (options s) of None \<Rightarrow> None | Some r \<Rightarrow> refs s r)"

section \<open>The watchers of \<open>onMounted\<close>\<close>

text \<open>
  Each watcher callback takes the \<^verbatim>\<open>newValues\<close> and \<^verbatim>\<open>prevValues\<close> that Vue
  hands it. On the first, immediate run Vue passes \<^verbatim>\<open>[]\<close> for the previous values
  of a list of sources, so that every \<^verbatim>\<open>prevValues[idx]\<close> is \<^verbatim>\<open>undefined\<close>.

  The first watcher: capture the focused element before the trap is enabled.
\<close>

definition arm_watcher ::
  "'w platform \<Rightarrow> jsval list \<Rightarrow> jsval list \<Rightarrow> 'w trap \<Rightarrow> 'w trap" where
  "arm_watcher P newValues prevValues s =
     (if every_same newValues prevValues then s
      else if \<not> featuresRestoreFocus s then s
      else (s\<lparr>mounted := True\<rparr>)\<lparr>restoreElement := document_activeElement P s\<rparr>)"

text \<open>The closure the second watcher hands to \<^verbatim>\<open>onInvalidate\<close>.\<close>

definition restore_onInvalidate :: "'w platform \<Rightarrow> 'w trap \<Rightarrow> 'w trap" where
  "restore_onInvalidate P s =
     (if mounted s = False then s
      else let s1 = s\<lparr>mounted := False\<rparr>;
               s2 = call_focusElement P (restoreElement s1) s1
           in s2\<lparr>restoreElement := None\<rparr>)"

text \<open>The second watcher: restore the focus when the component unmounts.\<close>

definition restore_watcher :: "jsval list \<Rightarrow> jsval list \<Rightarrow> 'w trap \<Rightarrow> 'w trap" where
  "restore_watcher newValues prevValues s =
     (if every_same newValues prevValues then s
      else if \<not> featuresRestoreFocus s then s
      else s\<lparr>onInvalidate := True\<rparr>)"

text \<open>
  Vue calls the closure given to \<^verbatim>\<open>onInvalidate\<close> when the watcher is about to
  run again and when it is stopped (the component unmounts).
\<close>

definition invalidate :: "'w platform \<Rightarrow> 'w trap \<Rightarrow> 'w trap" where
  "invalidate P s = (if onInvalidate s then restore_onInvalidate P s else s)"

text \<open>
  The third watcher: the initial focus. \<open>try_focus\<close> is its second half, from
  \<^verbatim>\<open>// Try to focus the initialFocus ref\<close> on. A \<^verbatim>\<open>throw\<close> is the result
  \<open>Inl\<close>, with the message and the state at the throw.
\<close>

definition no_focusable_message :: string where
  "no_focusable_message = ''There are no focusable elements inside the <FocusTrap />''"

definition try_focus ::
  "'w platform \<Rightarrow> elem \<Rightarrow> 'w trap \<Rightarrow> (string \<times> 'w trap) + 'w trap" where
  "try_focus P c s =
     (case initialFocus_value s of
        Some e \<Rightarrow>
          (let s1 = call_focusElement P (Some e) s
           in Inr (s1\<lparr>previousActiveElement := document_activeElement P s1\<rparr>))
      | None \<Rightarrow>
          (let (r, s1) = call_focusIn P c First False s
           in if r = Error then Inl (no_focusable_message, s1)
              else Inr (s1\<lparr>previousActiveElement := document_activeElement P s1\<rparr>)))"

definition initial_focus_watcher ::
  "'w platform \<Rightarrow> jsval list \<Rightarrow> jsval list \<Rightarrow> 'w trap \<Rightarrow> (string \<times> 'w trap) + 'w trap" where
  "initial_focus_watcher P newValues prevValues s =
     (if every_same newValues prevValues then Inr s
      else if \<not> featuresInitialFocus s then Inr s
      else case refs s (container s) of
        None \<Rightarrow> Inr s
      | Some c \<Rightarrow>
          (let activeElement = document_activeElement P s
           in case initialFocus_value s of
                Some e \<Rightarrow>
                  if Some e = activeElement
                  then Inr (s\<lparr>previousActiveElement := activeElement\<rparr>)
                  else try_focus P c s
              | None \<Rightarrow>
                  if Node_contains P c activeElement
                  then Inr (s\<lparr>previousActiveElement := activeElement\<rparr>)
                  else try_focus P c s))"

section \<open>The window listeners\<close>

text \<open>The \<^verbatim>\<open>keydown\<close> listener: Tab and Shift+Tab.\<close>

definition keydown_handler ::
  "'w platform \<Rightarrow> keyboard_event \<Rightarrow> 'w trap \<Rightarrow> keyboard_event \<times> 'w trap" where
  "keydown_handler P event s =
     (if features s AND Features_TabLock = 0 then (event, s)
      else case refs s (container s) of
        None \<Rightarrow> (event, s)
      | Some c \<Rightarrow>
          if key event \<noteq> Keys_Tab then (event, s)
          else
            (let event1 = preventDefault event;
                 (r, s1) = call_focusIn P c (if shiftKey event then Previous else Next) True s
             in if r = Success
                then (event1, s1\<lparr>previousActiveElement := document_activeElement P s1\<rparr>)
                else (event1, s1)))"

text \<open>
  \<^verbatim>\<open>function contains(containers, element)\<close>: the loop over the set, in its order;
  \<^verbatim>\<open>container.value?.contains(element)\<close> is falsy for a ref that holds
  \<^verbatim>\<open>null\<close>.
\<close>

fun contains :: "'w platform \<Rightarrow> (eref \<Rightarrow> elem option) \<Rightarrow> eref list \<Rightarrow> elem \<Rightarrow> bool" where
  "contains P store [] element = False"
| "contains P store (r # rs) element =
     (case store r of
        None \<Rightarrow> contains P store rs element
      | Some c \<Rightarrow> if nodeContains P c element then True else contains P store rs element)"

text \<open>
  \<^verbatim>\<open>let allContainers = new Set(options.value.containers?.value)\<close> followed by
  \<^verbatim>\<open>allContainers.add(container)\<close>.
\<close>

definition allContainers :: "'w trap \<Rightarrow> eref list" where
  "allContainers s =
     Set_add (new_Set (case containers (options s) of None \<Rightarrow> [] | Some cs \<Rightarrow> cs))
       (container s)"

text \<open>The \<^verbatim>\<open>focus\<close> listener (capture phase): no programmatic escape.\<close>

definition focus_handler ::
  "'w platform \<Rightarrow> focus_event \<Rightarrow> 'w trap \<Rightarrow> focus_event \<times> 'w trap" where
  "focus_handler P event s =
     (if features s AND Features_FocusLock = 0 then (event, s)
      else if Set_size (allContainers s) = 0 then (event, s)
      else case previousActiveElement s of
        None \<Rightarrow> (event, s)
      | Some previous \<Rightarrow>
          if \<not> mounted s then (event, s)
          else
            (case target event of
               HTMLElement toElement \<Rightarrow>
                 if \<not> contains P (refs s) (allContainers s) toElement
                 then (stopPropagation (preventDefault event),
                       call_focusElement P (Some previous) s)
                 else (event,
                       call_focusElement P (Some toElement)
                         (s\<lparr>previousActiveElement := Some toElement\<rparr>))
             | _ \<Rightarrow> (event, call_focusElement P (previousActiveElement s) s)))"

section \<open>The life of a trap\<close>

text \<open>
  \<^verbatim>\<open>onMounted\<close> creates the three watchers with \<^verbatim>\<open>immediate: true\<close>: each
  callback runs at once, in this order, with the current values of its sources and
  \<^verbatim>\<open>[]\<close> for the previous ones.
\<close>

definition elem_value :: "elem option \<Rightarrow> jsval" where
  "elem_value v = (case v of None \<Rightarrow> JNull | Some e \<Rightarrow> JElem e)"

definition restore_sources :: "'w trap \<Rightarrow> jsval list" where
  "restore_sources s = [JBool (featuresRestoreFocus s)]"

definition initial_focus_sources :: "'w trap \<Rightarrow> jsval list" where
  "initial_focus_sources s =
     [elem_value (refs s (container s)),
      JObj 0,
      (case initialFocus (options s) of None \<Rightarrow> JUndefined | Some r \<Rightarrow> elem_value (refs s r)),
      JBool (featuresInitialFocus s)]"

definition onMounted :: "'w platform \<Rightarrow> 'w trap \<Rightarrow> (string \<times> 'w trap) + 'w trap" where
  "onMounted P s =
     (let s1 = arm_watcher P (restore_sources s) [] s;
          s2 = restore_watcher (restore_sources s1) [] s1
      in initial_focus_watcher P (initial_focus_sources s2) [] s2)"

text \<open>
  What can happen to a trap, one step at a time: a watcher callback runs, Vue calls
  the \<^verbatim>\<open>onInvalidate\<close> closure, a key goes down, the focus changes, or the owner
  of the refs and of the options writes to them, and the page changes the focus by
  itself. An exception thrown by the third watcher leaves the state as it was at the
  throw.
\<close>

datatype 'w action =
    RunArmWatcher "jsval list" "jsval list"
  | RunRestoreWatcher "jsval list" "jsval list"
  | RunInitialFocusWatcher "jsval list" "jsval list"
  | Invalidate
  | Keydown keyboard_event
  | FocusChange focus_event
  | SetRef eref "elem option"
  | SetOptions options
  | SetWorld 'w

definition state_of :: "(string \<times> 'w trap) + 'w trap \<Rightarrow> 'w trap" where
  "state_of r = (case r of Inl (msg, s) \<Rightarrow> s | Inr s \<Rightarrow> s)"

fun step :: "'w platform \<Rightarrow> 'w action \<Rightarrow> 'w trap \<Rightarrow> 'w trap" where
  "step P (RunArmWatcher newValues prevValues) s = arm_watcher P newValues prevValues s"
| "step P (RunRestoreWatcher newValues prevValues) s = restore_watcher newValues prevValues s"
| "step P (RunInitialFocusWatcher newValues prevValues) s =
     state_of (initial_focus_watcher P newValues prevValues s)"
| "step P Invalidate s = invalidate P s"
| "step P (Keydown event) s = snd (keydown_handler P event s)"
| "step P (FocusChange event) s = snd (focus_handler P event s)"
| "step P (SetRef r v) s = s\<lparr>refs := (refs s)(r := v)\<rparr>"
| "step P (SetOptions v) s = s\<lparr>options := v\<rparr>"
| "step P (SetWorld w) s = s\<lparr>world := w\<rparr>"

definition run :: "'w platform \<Rightarrow> 'w action list \<Rightarrow> 'w trap \<Rightarrow> 'w trap" where
  "run P acts s = foldl (\<lambda>s a. step P a s) s acts"

text \<open>A run of focus changes only.\<close>

definition focus_changes :: "'w platform \<Rightarrow> focus_event list \<Rightarrow> 'w trap \<Rightarrow> 'w trap" where
  "focus_changes P events s = foldl (\<lambda>s event. snd (focus_handler P event s)) s events"

text \<open>
  The element recorded in \<open>previousActiveElement\<close>, if there is one, lies in
  one of the allowed regions.
\<close>

definition recorded_inside :: "'w platform \<Rightarrow> 'w trap \<Rightarrow> bool" where
  "recorded_inside P s =
     (case previousActiveElement s of
        None \<Rightarrow> True
      | Some e \<Rightarrow> contains P (refs s) (allContainers s) e)"

section \<open>The \<open>FocusTrap\<close> component\<close>

text \<open>
  \<^verbatim>\<open>components/focus-trap/focus-trap.ts\<close>: the object given to
  \<^verbatim>\<open>defineComponent\<close>, which hands back the object it is given. Its members are
  \<^verbatim>\<open>name\<close>, \<^verbatim>\<open>props\<close>, \<^verbatim>\<open>render\<close> and \<^verbatim>\<open>setup\<close>; a member it has
  not is \<^verbatim>\<open>undefined\<close>.
\<close>

definition FocusTrap :: "(string \<times> jsval) list" where
  "FocusTrap =
     [(''name'', JStr ''FocusTrap''), (''props'', JObj 1), (''render'', JObj 2),
      (''setup'', JObj 3)]"

text \<open>
  \<^verbatim>\<open>setup(props)\<close>: the \<open>container\<close> is a fresh \<^verbatim>\<open>ref(null)\<close> (ref 0), the
  options hold a fresh ref of \<^verbatim>\<open>props.initialFocus\<close> (ref 1), and the features
  argument is \<^verbatim>\<open>FocusTrap.All\<close>.
\<close>

definition FocusTrap_setup :: "'w platform \<Rightarrow> bool \<Rightarrow> 'w \<Rightarrow> elem option \<Rightarrow> 'w trap" where
  "FocusTrap_setup P window_defined w props_initialFocus =
     useFocusTrap P window_defined ((\<lambda>r. None)(1 := props_initialFocus)) w
       0 (member FocusTrap ''All'') (Some \<lparr>initialFocus = Some 1, containers = None\<rparr>)"

section \<open>A page to run the trap on\<close>

text \<open>
  Modelled from the spec: \<^verbatim>\<open>focusElement\<close> and \<^verbatim>\<open>focusIn\<close> of
  \<^verbatim>\<open>utils/focus-management\<close>, which is not among the sources. The world is the
  focused element. \<^verbatim>\<open>focusElement\<close> sets the focus on the element it is given and
  does nothing for \<^verbatim>\<open>null\<close>. \<^verbatim>\<open>focusIn\<close> moves the focus to the first, last,
  next or previous of the focusable descendants of the root, in their order, cycling
  at the ends when wrap-around is asked for; with no focusable descendant it reports
  Error and moves nothing.
\<close>

fun index_of :: "elem list \<Rightarrow> elem \<Rightarrow> nat option" where
  "index_of [] x = None"
| "index_of (y # ys) x = (if x = y then Some 0 else map_option Suc (index_of ys x))"

definition spec_focusIn ::
  "(elem \<Rightarrow> elem list) \<Rightarrow> elem \<Rightarrow> Focus \<Rightarrow> bool \<Rightarrow> elem option \<Rightarrow>
   FocusResult \<times> elem option" where
  "spec_focusIn focusable root d wrap w =
     (let xs = focusable root;
          n = length xs;
          here = (case w of None \<Rightarrow> None | Some a \<Rightarrow> index_of xs a)
      in if n = 0 then (Error, w)
         else
           (case d of
              First \<Rightarrow> (Success, Some (xs ! 0))
            | Last \<Rightarrow> (Success, Some (xs ! (n - 1)))
            | Next \<Rightarrow>
                (case here of
                   None \<Rightarrow> (Success, Some (xs ! 0))
                 | Some i \<Rightarrow>
                     if i + 1 < n then (Success, Some (xs ! (i + 1)))
                     else if wrap then (Success, Some (xs ! 0))
                     else (Error, w))
            | Previous \<Rightarrow>
                (case here of
                   None \<Rightarrow> (Success, Some (xs ! (n - 1)))
                 | Some i \<Rightarrow>
                     if 0 < i then (Success, Some (xs ! (i - 1)))
                     else if wrap then (Success, Some (xs ! (n - 1)))
                     else (Error, w))))"

definition spec_platform ::
  "(elem \<Rightarrow> elem list) \<Rightarrow> (elem \<Rightarrow> elem \<Rightarrow> bool) \<Rightarrow> (elem option) platform" where
  "spec_platform focusable inside =
     \<lparr>activeElement = (\<lambda>w. w),
      focusElement = (\<lambda>e w. case e of None \<Rightarrow> w | Some x \<Rightarrow> Some x),
      focusIn = spec_focusIn focusable,
      nodeContains = inside\<rparr>"

text \<open>
  A page: the dialog 1 with the buttons 2, 3 and 4 inside, a second region 5 with the
  button 6, the buttons 7 and 8 outside both, and an empty region 9 that can itself
  hold the focus. An element contains itself and its focusable descendants.
\<close>

definition page_focusable :: "elem \<Rightarrow> elem list" where
  "page_focusable root = (if root = 1 then [2, 3, 4] else if root = 5 then [6] else [])"

definition page_inside :: "elem \<Rightarrow> elem \<Rightarrow> bool" where
  "page_inside a b = (a = b \<or> b \<in> set (page_focusable a))"

definition page :: "(elem option) platform" where
  "page = spec_platform page_focusable page_inside"

text \<open>
  The refs of the page: ref 0 holds the dialog, ref 1 the second region, ref 2 the
  outside button 7, ref 3 the empty region, ref 4 the button 3; every other ref holds
  \<^verbatim>\<open>null\<close>.
\<close>

definition page_refs :: "eref \<Rightarrow> elem option" where
  "page_refs =
     (\<lambda>r. None)(0 := Some 1, 1 := Some 5, 2 := Some 7, 3 := Some 9, 4 := Some 3)"

text \<open>
  A trap on the page: its container ref, the features, the options and the element
  focused when \<^verbatim>\<open>useFocusTrap\<close> is called.
\<close>

definition page_trap ::
  "eref \<Rightarrow> features \<Rightarrow> options \<Rightarrow> elem option \<Rightarrow> (elem option) trap" where
  "page_trap c v opts w = useFocusTrap page True page_refs w c (JRef v) (Some opts)"

definition no_options :: options where
  "no_options = \<lparr>initialFocus = None, containers = None\<rparr>"

definition Escape_key :: keyboard_event where
  "Escape_key =
     \<lparr>defaultPrevented = False, propagationStopped = False, key = ''Escape'', shiftKey = False\<rparr>"

definition Tab_key :: "bool \<Rightarrow> keyboard_event" where
  "Tab_key shift =
     \<lparr>defaultPrevented = False, propagationStopped = False, key = ''Tab'', shiftKey = shift\<rparr>"

definition focus_on :: "EventTarget \<Rightarrow> focus_event" where
  "focus_on t = \<lparr>defaultPrevented = False, propagationStopped = False, target = t\<rparr>"

text \<open>
  The trap of the dialog with the regions of ref 5 (which holds \<^verbatim>\<open>null\<close>) and
  of ref 1 as further containers, mounted while the button 7 has the focus.
\<close>

definition regions_trap :: "(elem option) trap" where
  "regions_trap =
     state_of (onMounted page
       (page_trap 0 Features_All \<lparr>initialFocus = None, containers = Some [5, 1]\<rparr> (Some 7)))"

text \<open>
  Traps on the page before \<^verbatim>\<open>onMounted\<close>, all features on, as a function of
  the element that has the focus: the dialog with no options, the dialog with the
  button 3 (ref 4) as its initial focus, the dialog with the outside button 7 (ref 2)
  as its initial focus, and the empty region 9 (ref 3) with no options.
\<close>

definition plain_trap :: "elem option \<Rightarrow> (elem option) trap" where
  "plain_trap w = page_trap 0 Features_All no_options w"

definition target_trap :: "elem option \<Rightarrow> (elem option) trap" where
  "target_trap w = page_trap 0 Features_All \<lparr>initialFocus = Some 4, containers = None\<rparr> w"

definition outside_target_trap :: "elem option \<Rightarrow> (elem option) trap" where
  "outside_target_trap w =
     page_trap 0 Features_All \<lparr>initialFocus = Some 2, containers = None\<rparr> w"

definition empty_trap :: "elem option \<Rightarrow> (elem option) trap" where
  "empty_trap w = page_trap 3 Features_All no_options w"

text \<open>
  The dialog whose initial focus is the outside button 7, mounted while that button
  has the focus, and then told that the focus goes to the outside button 8.
\<close>

definition escaped_trap :: "(elem option) trap" where
  "escaped_trap =
     focus_changes page [focus_on (HTMLElement 8)]
       (state_of (onMounted page (outside_target_trap (Some 7))))"

section \<open>A write to the features ref\<close>

text \<open>
  The caller of \<^verbatim>\<open>useFocusTrap\<close> may keep the features ref and write to it. Vue
  (3.0 to 3.2) then runs the jobs of the watchers whose source has a new value, in the
  order in which the watchers were created. The job of a watcher first calls the
  closure that was last handed to \<^verbatim>\<open>onInvalidate\<close>, if one ever was (Vue keeps it
  after the call: \<open>invalidate\<close>), and then the callback, with the new values and
  those of its last run. The first two watchers have the source
  \<open>featuresRestoreFocus\<close>, the third has \<open>featuresInitialFocus\<close> among its
  sources.
\<close>

definition set_features ::
  "'w platform \<Rightarrow> features \<Rightarrow> 'w trap \<Rightarrow> (string \<times> 'w trap) + 'w trap" where
  "set_features P v s =
     (let s0 = s\<lparr>features := v\<rparr>;
          s2 = (if featuresRestoreFocus s0 = featuresRestoreFocus s then s0
                else
                  (let s1 = arm_watcher P (restore_sources s0) (restore_sources s) s0
                   in restore_watcher (restore_sources s0) (restore_sources s)
                        (invalidate P s1)))
      in if featuresInitialFocus s0 = featuresInitialFocus s then Inr s2
         else initial_focus_watcher P (initial_focus_sources s2) (initial_focus_sources s) s2)"

text \<open>
  The features go to \<open>off\<close>, the page moves the focus (the world becomes \<open>w\<close>),
  and the features go to \<open>on\<close>.
\<close>

definition toggle :: "'w platform \<Rightarrow> features \<Rightarrow> features \<Rightarrow> 'w \<Rightarrow> 'w trap \<Rightarrow> 'w trap" where
  "toggle P off on w s =
     state_of (set_features P on ((state_of (set_features P off s))\<lparr>world := w\<rparr>))"

text \<open>\<^verbatim>\<open>Features.All\<close> without \<^verbatim>\<open>Features.RestoreFocus\<close>.\<close>

definition no_RestoreFocus :: features where
  "no_RestoreFocus = Features_InitialFocus OR Features_TabLock OR Features_FocusLock"

section \<open>The recorded element over the life of a trap\<close>

text \<open>
  The element recorded in \<open>previousActiveElement\<close>, if there is one, lies in one of
  the allowed regions or is the element the initial-focus ref holds.
\<close>

definition recorded_inside_or_target :: "'w platform \<Rightarrow> 'w trap \<Rightarrow> bool" where
  "recorded_inside_or_target P s =
     (case previousActiveElement s of
        None \<Rightarrow> True
      | Some e \<Rightarrow> contains P (refs s) (allContainers s) e \<or> initialFocus_value s = Some e)"

text \<open>
  On a page whose focusable descendants of a root are inside that root.
\<close>

definition descendants_inside :: "(elem \<Rightarrow> elem list) \<Rightarrow> (elem \<Rightarrow> elem \<Rightarrow> bool) \<Rightarrow> bool" where
  "descendants_inside focusable inside = (\<forall>root. \<forall>x \<in> set (focusable root). inside root x)"

text \<open>
  The steps of the hook and of the page: every action but a write to a ref or to the
  options.
\<close>

fun hook_action :: "'w action \<Rightarrow> bool" where
  "hook_action (SetRef r v) = False"
| "hook_action (SetOptions v) = False"
| "hook_action a = True"

text \<open>
  A life of the dialog with the regions 5 and 1 as further containers: the three
  watchers run as \<^verbatim>\<open>onMounted\<close> runs them, Tab is pressed, the focus is sent to
  the outside button 7 and then to the button 6 of the second region.
\<close>

definition regions_life :: "(elem option) action list" where
  "regions_life =
     [RunArmWatcher [JBool True] [], RunRestoreWatcher [JBool True] [],
      RunInitialFocusWatcher [JElem 1, JObj 0, JUndefined, JBool True] [],
      Keydown (Tab_key False), FocusChange (focus_on (HTMLElement 7)),
      FocusChange (focus_on (HTMLElement 6))]"

section \<open>Properties\<close>

lemmas Features_defs =
  Features_None_def Features_InitialFocus_def Features_TabLock_def
  Features_FocusLock_def Features_RestoreFocus_def Features_All_def

lemma feature_bit_push: "feature_bit f = push_bit (feature_index f) 1"
  by (cases f) (simp_all add: Features_defs)

lemma enabled_union_of: "enabled (union_of fs) f = (f \<in> set fs)"
proof (induction fs)
  case Nil
  show ?case by (simp add: enabled_def)
next
  case (Cons g fs)
  have one: "(feature_bit g AND feature_bit f \<noteq> 0) = (g = f)"
    by (cases g; cases f) (simp_all add: Features_defs)
  have "enabled (union_of (g # fs)) f =
        ((feature_bit g AND feature_bit f) OR (union_of fs AND feature_bit f) \<noteq> 0)"
    by (simp add: enabled_def bit.conj_disj_distrib2)
  also have "\<dots> = (feature_bit g AND feature_bit f \<noteq> 0 \<or> union_of fs AND feature_bit f \<noteq> 0)"
    by (simp add: or_eq_0_iff)
  also have "\<dots> = (g = f \<or> f \<in> set fs)"
    using Cons.IH one by (simp add: enabled_def)
  finally show ?case by auto
qed

subsection \<open>Helper lemmas\<close>

lemma feature_bit_inj: "(feature_bit f = feature_bit g) = (f = g)"
  by (cases f; cases g) (simp_all add: Features_defs)

lemma enabled_All: "enabled Features_All f"
  by (cases f) (simp_all add: enabled_def Features_defs)

lemma not_enabled_None: "\<not> enabled Features_None f"
  by (cases f) (simp_all add: enabled_def Features_defs)

lemma enabled_OR: "enabled (a OR b) f = (enabled a f \<or> enabled b f)"
  by (simp add: enabled_def bit.conj_disj_distrib2 or_eq_0_iff)

lemma Set_add_member: "x \<in> set (Set_add xs x)"
  by (simp add: Set_add_def)

lemma allContainers_member: "container s \<in> set (allContainers s)"
  by (simp add: allContainers_def Set_add_member)

lemma allContainers_size: "Set_size (allContainers s) \<noteq> 0"
  using allContainers_member [of s] by (auto simp: Set_size_def)

lemma contains_iff:
  "contains P store rs e = (\<exists>r c. r \<in> set rs \<and> store r = Some c \<and> nodeContains P c e)"
  by (induction rs) (auto split: option.splits)

lemmas model_defs =
  useFocusTrap_def features_param_def options_param_def featuresRestoreFocus_def
  featuresInitialFocus_def initialFocus_value_def document_activeElement_def
  call_focusElement_def call_focusIn_def Node_contains_def Keys_Tab_def
  js_index_def every_same_def member_def Set_add_def new_Set_def Set_size_def
  preventDefault_def stopPropagation_def
  arm_watcher_def restore_onInvalidate_def restore_watcher_def invalidate_def
  try_focus_def initial_focus_watcher_def keydown_handler_def allContainers_def
  focus_handler_def elem_value_def restore_sources_def initial_focus_sources_def
  onMounted_def state_of_def run_def focus_changes_def recorded_inside_def

lemmas page_defs =
  spec_focusIn_def spec_platform_def page_focusable_def page_inside_def page_def
  page_refs_def page_trap_def no_options_def Escape_key_def Tab_key_def focus_on_def
  FocusTrap_def FocusTrap_setup_def

lemma regions_trap_eq:
  "regions_trap =
     \<lparr>features = 30, refs = page_refs, container = 0,
      options = \<lparr>initialFocus = None, containers = Some [5, 1]\<rparr>,
      restoreElement = Some 7, previousActiveElement = Some 2, mounted = True,
      onInvalidate = True, world = Some 2, calls = [FocusIn 1 First False]\<rparr>"
  by (simp add: regions_trap_def model_defs page_defs Features_defs Let_def)

subsection \<open>C8: the encoding of the feature flags\<close>

text \<open>
  C8 as claimed: \<^verbatim>\<open>Features.None\<close> equals 0. The enum writes
  \<^verbatim>\<open>None = 1 << 0\<close>, which is 1.
\<close>

theorem Features_None_counterexample: "Features_None \<noteq> 0"
  by (simp add: Features_None_def)

text \<open>
  C8, amended: \<^verbatim>\<open>Features.None\<close> is 1, the bit 0, which none of the four
  features uses; \<^verbatim>\<open>Features.All\<close> is the bitwise union of
  \<^verbatim>\<open>InitialFocus\<close>, \<^verbatim>\<open>TabLock\<close>, \<^verbatim>\<open>FocusLock\<close> and
  \<^verbatim>\<open>RestoreFocus\<close>; each of the four is a single bit (bits 1 to 4) and two of
  them are equal only if they are the same feature; and the test
  \<^verbatim>\<open>value & Features.X\<close> on a union of features is membership of \<open>X\<close> in the
  set that was united, with or without the bit of \<^verbatim>\<open>None\<close> in the value. With
  \<^verbatim>\<open>All\<close> every test succeeds, with \<^verbatim>\<open>None\<close> every test fails.
\<close>

theorem Features_encoding:
  "Features_None = 1 \<and>
   Features_All = union_of [InitialFocus, TabLock, FocusLock, RestoreFocus] \<and>
   feature_bit f = push_bit (feature_index f) 1 \<and>
   (feature_bit f = feature_bit g) = (f = g) \<and>
   enabled (union_of fs) f = (f \<in> set fs) \<and>
   enabled Features_All f \<and>
   \<not> enabled Features_None f \<and>
   enabled (Features_None OR union_of fs) f = (f \<in> set fs)"
proof -
  have "Features_None = 1" by (simp add: Features_None_def)
  moreover have "Features_All = union_of [InitialFocus, TabLock, FocusLock, RestoreFocus]"
    by (simp add: Features_All_def)
  moreover have "enabled (Features_None OR union_of fs) f = (f \<in> set fs)"
    by (simp add: enabled_OR not_enabled_None enabled_union_of)
  ultimately show ?thesis
    using feature_bit_push feature_bit_inj enabled_union_of enabled_All not_enabled_None
    by blast
qed

theorem Features_encoding_witness:
  "enabled (union_of [TabLock, FocusLock]) FocusLock \<and>
   \<not> enabled (union_of [TabLock, FocusLock]) RestoreFocus \<and>
   feature_bit TabLock = 4"
  using Features_encoding [of TabLock TabLock "[TabLock, FocusLock]"]
        Features_encoding [of FocusLock TabLock "[TabLock, FocusLock]"]
        Features_encoding [of RestoreFocus TabLock "[TabLock, FocusLock]"]
  by simp

subsection \<open>C10: the set of containers is never empty, and \<open>contains\<close> is total\<close>

text \<open>
  C10: in the focus listener the set \<open>allContainers\<close> always has the trap's own
  \<open>container\<close> ref as a member, so its size is never 0 and the branch
  \<^verbatim>\<open>if (!allContainers.size) return\<close> is never taken: when \<open>FocusLock\<close> is on,
  an element is recorded and the trap is mounted, the listener always goes on to call
  \<^verbatim>\<open>focusElement\<close>. \<open>contains\<close> is a total function of the set, the refs and
  the candidate: it is true exactly when some ref of the set holds an element that
  contains the candidate, a ref that holds \<^verbatim>\<open>null\<close> is skipped, and it is false
  when no ref that holds an element contains the candidate.
\<close>

theorem allContainers_never_empty:
  "container s \<in> set (allContainers s) \<and>
   Set_size (allContainers s) \<noteq> 0 \<and>
   contains P store rs e = (\<exists>r c. r \<in> set rs \<and> store r = Some c \<and> nodeContains P c e) \<and>
   (store r = None \<longrightarrow> contains P store (r # rs) e = contains P store rs e) \<and>
   (features s AND Features_FocusLock \<noteq> 0 \<and> previousActiveElement s \<noteq> None \<and> mounted s \<longrightarrow>
      calls (snd (focus_handler P ev s)) \<noteq> calls s)"
proof -
  have "features s AND Features_FocusLock \<noteq> 0 \<and> previousActiveElement s \<noteq> None \<and> mounted s \<longrightarrow>
      calls (snd (focus_handler P ev s)) \<noteq> calls s"
    by (auto simp: focus_handler_def allContainers_size call_focusElement_def
        split: option.splits EventTarget.splits)
  then show ?thesis
    using allContainers_member [of s] allContainers_size [of s] contains_iff [of P store rs e]
    by simp
qed

theorem allContainers_never_empty_witness:
  "allContainers regions_trap = [5, 1, 0] \<and>
   contains page page_refs [5, 1, 0] 6 \<and>
   \<not> contains page page_refs [5, 1, 0] 7 \<and>
   page_refs 5 = None \<and>
   contains page page_refs [5, 1, 0] 3 = contains page page_refs [1, 0] 3 \<and>
   features regions_trap AND Features_FocusLock \<noteq> 0 \<and>
   previousActiveElement regions_trap \<noteq> None \<and> mounted regions_trap \<and>
   calls (snd (focus_handler page (focus_on NullTarget) regions_trap)) \<noteq> calls regions_trap"
proof -
  have a: "allContainers regions_trap = [5, 1, 0]"
    by (simp add: regions_trap_eq allContainers_def new_Set_def Set_add_def)
  have b: "page_refs 5 = None" by (simp add: page_refs_def)
  have c: "contains page page_refs [5, 1, 0] 6"
    by (simp add: page_refs_def page_def spec_platform_def page_inside_def page_focusable_def)
  have d: "\<not> contains page page_refs [5, 1, 0] 7"
    by (simp add: page_refs_def page_def spec_platform_def page_inside_def page_focusable_def)
  have e: "features regions_trap AND Features_FocusLock \<noteq> 0 \<and>
    previousActiveElement regions_trap \<noteq> None \<and> mounted regions_trap"
    by (simp add: regions_trap_eq Features_defs)
  show ?thesis
    using a b c d e
      allContainers_never_empty [of regions_trap page page_refs "[1, 0]" 3 5 "focus_on NullTarget"]
    by simp
qed

subsection \<open>Evaluating the traps of the page\<close>

lemmas scenario_defs = plain_trap_def target_trap_def outside_target_trap_def empty_trap_def
  escaped_trap_def

lemma trap_fields:
  "features (page_trap c v opts w) = v" "refs (page_trap c v opts w) = page_refs"
  "container (page_trap c v opts w) = c" "options (page_trap c v opts w) = opts"
  "world (page_trap c v opts w) = w" "calls (page_trap c v opts w) = []"
  "mounted (page_trap c v opts w) = False"
  "previousActiveElement (page_trap c v opts w) = None"
  by (simp_all add: page_trap_def useFocusTrap_def features_param_def options_param_def)

subsection \<open>C5: restoring the focus is idempotent\<close>

lemma restore_onInvalidate_mounted:
  "mounted s \<Longrightarrow> restore_onInvalidate P s =
     s\<lparr>mounted := False, restoreElement := None,
       world := focusElement P (restoreElement s) (world s),
       calls := calls s @ [FocusElement (restoreElement s)]\<rparr>"
  by (simp add: restore_onInvalidate_def call_focusElement_def Let_def)

lemma restore_onInvalidate_unmounted: "\<not> mounted s \<Longrightarrow> restore_onInvalidate P s = s"
  by (simp add: restore_onInvalidate_def)

lemma restore_onInvalidate_clears: "\<not> mounted (restore_onInvalidate P s)"
  by (simp add: restore_onInvalidate_def call_focusElement_def Let_def)

lemma restore_onInvalidate_twice:
  "restore_onInvalidate P (restore_onInvalidate P s) = restore_onInvalidate P s"
  by (simp add: restore_onInvalidate_unmounted restore_onInvalidate_clears)

lemma restore_onInvalidate_many:
  "(restore_onInvalidate P ^^ Suc n) s = restore_onInvalidate P s"
  by (induction n) (simp_all add: restore_onInvalidate_twice)

lemma restore_onInvalidate_calls:
  "calls (restore_onInvalidate P s) =
     (if mounted s then calls s @ [FocusElement (restoreElement s)] else calls s)"
  by (simp add: restore_onInvalidate_def call_focusElement_def Let_def)

text \<open>
  C5: the closure handed to \<^verbatim>\<open>onInvalidate\<close> is the teardown. Fired on a trap
  whose \<open>mounted\<close> flag is true, it sets the flag to false, calls
  \<^verbatim>\<open>focusElement\<close> once, on \<open>restoreElement\<close>, and clears \<open>restoreElement\<close>.
  Fired on a trap whose flag is false, it changes nothing. After a fire the flag is
  false, so a second fire changes nothing: any number of fires in a row is one fire,
  and logs at most one call that moves the focus. A trap that was never armed (the
  state \<^verbatim>\<open>useFocusTrap\<close> starts from) is left as it is.
\<close>

theorem restore_fires_once:
  "(mounted s \<longrightarrow>
      restore_onInvalidate P s =
        s\<lparr>mounted := False, restoreElement := None,
          world := focusElement P (restoreElement s) (world s),
          calls := calls s @ [FocusElement (restoreElement s)]\<rparr>) \<and>
   (\<not> mounted s \<longrightarrow> restore_onInvalidate P s = s) \<and>
   \<not> mounted (restore_onInvalidate P s) \<and>
   restore_onInvalidate P (restore_onInvalidate P s) = restore_onInvalidate P s \<and>
   (restore_onInvalidate P ^^ Suc n) s = restore_onInvalidate P s \<and>
   length (calls ((restore_onInvalidate P ^^ Suc n) s)) \<le> Suc (length (calls s)) \<and>
   restore_onInvalidate P (useFocusTrap P window_defined store w c features_arg options_arg) =
     useFocusTrap P window_defined store w c features_arg options_arg"
proof -
  have "length (calls ((restore_onInvalidate P ^^ Suc n) s)) \<le> Suc (length (calls s))"
    unfolding restore_onInvalidate_many by (simp add: restore_onInvalidate_calls)
  moreover have "restore_onInvalidate P (useFocusTrap P window_defined store w c features_arg options_arg) =
     useFocusTrap P window_defined store w c features_arg options_arg"
    by (rule restore_onInvalidate_unmounted) (simp add: useFocusTrap_def)
  ultimately show ?thesis
    using restore_onInvalidate_mounted [of s P] restore_onInvalidate_unmounted [of s P]
      restore_onInvalidate_clears [of P s] restore_onInvalidate_twice [of P s]
      restore_onInvalidate_many [of n P s]
    by blast
qed

theorem restore_fires_once_witness:
  "mounted regions_trap \<and>
   restore_onInvalidate page regions_trap =
     regions_trap\<lparr>mounted := False, restoreElement := None, world := Some 7,
       calls := [FocusIn 1 First False, FocusElement (Some 7)]\<rparr> \<and>
   \<not> mounted (restore_onInvalidate page regions_trap) \<and>
   restore_onInvalidate page (restore_onInvalidate page regions_trap) =
     regions_trap\<lparr>mounted := False, restoreElement := None, world := Some 7,
       calls := [FocusIn 1 First False, FocusElement (Some 7)]\<rparr>"
proof -
  have m: "mounted regions_trap" by (simp add: regions_trap_eq)
  have n: "\<not> mounted (restore_onInvalidate page regions_trap)"
    using restore_fires_once [of regions_trap page 0] by simp
  show ?thesis
    using m n restore_fires_once [of regions_trap page 0]
      restore_fires_once [of "restore_onInvalidate page regions_trap" page 0]
    by (simp add: regions_trap_eq page_def spec_platform_def)
qed

subsection \<open>C2: an attempt to escape\<close>

text \<open>
  C2: a focus event arrives while \<open>FocusLock\<close> is on, the element \<open>A\<close> is
  recorded in \<open>previousActiveElement\<close> and the trap is mounted. If its target is an
  element \<open>B\<close> that \<open>contains\<close> finds in none of the allowed regions, the listener
  calls \<^verbatim>\<open>preventDefault\<close> and \<^verbatim>\<open>stopPropagation\<close> on the event and
  \<^verbatim>\<open>focusElement\<close> on \<open>A\<close>, and the recorded element stays \<open>A\<close>. If \<open>B\<close>
  passes the check, \<open>B\<close> is recorded and \<^verbatim>\<open>focusElement\<close> is called on \<open>B\<close>,
  the event untouched. If no element is recorded or the trap is not mounted, the
  event and the state are left as they are.
\<close>

theorem focus_handler_escape:
  "(features s AND Features_FocusLock \<noteq> 0 \<and> previousActiveElement s = Some A \<and> mounted s \<and>
    target ev = HTMLElement B \<and> \<not> contains P (refs s) (allContainers s) B \<longrightarrow>
      focus_handler P ev s =
        (ev\<lparr>defaultPrevented := True, propagationStopped := True\<rparr>,
         s\<lparr>world := focusElement P (Some A) (world s),
           calls := calls s @ [FocusElement (Some A)]\<rparr>)) \<and>
   (features s AND Features_FocusLock \<noteq> 0 \<and> previousActiveElement s = Some A \<and> mounted s \<and>
    target ev = HTMLElement B \<and> contains P (refs s) (allContainers s) B \<longrightarrow>
      focus_handler P ev s =
        (ev,
         s\<lparr>previousActiveElement := Some B,
           world := focusElement P (Some B) (world s),
           calls := calls s @ [FocusElement (Some B)]\<rparr>)) \<and>
   (previousActiveElement s = None \<or> \<not> mounted s \<longrightarrow> focus_handler P ev s = (ev, s))"
  by (auto simp: focus_handler_def allContainers_size call_focusElement_def
      preventDefault_def stopPropagation_def split: option.splits)

theorem focus_handler_escape_witness:
  "features regions_trap AND Features_FocusLock \<noteq> 0 \<and>
   previousActiveElement regions_trap = Some 2 \<and> mounted regions_trap \<and>
   \<not> contains page (refs regions_trap) (allContainers regions_trap) 7 \<and>
   focus_handler page (focus_on (HTMLElement 7)) regions_trap =
     (\<lparr>defaultPrevented = True, propagationStopped = True, target = HTMLElement 7\<rparr>,
      regions_trap\<lparr>calls := [FocusIn 1 First False, FocusElement (Some 2)]\<rparr>) \<and>
   contains page (refs regions_trap) (allContainers regions_trap) 6 \<and>
   focus_handler page (focus_on (HTMLElement 6)) regions_trap =
     (focus_on (HTMLElement 6),
      regions_trap\<lparr>previousActiveElement := Some 6, world := Some 6,
        calls := [FocusIn 1 First False, FocusElement (Some 6)]\<rparr>) \<and>
   \<not> mounted (plain_trap (Some 7)) \<and>
   focus_handler page (focus_on (HTMLElement 7)) (plain_trap (Some 7)) =
     (focus_on (HTMLElement 7), plain_trap (Some 7))"
proof -
  have a: "features regions_trap AND Features_FocusLock \<noteq> 0 \<and>
     previousActiveElement regions_trap = Some 2 \<and> mounted regions_trap"
    by (simp add: regions_trap_eq Features_defs)
  have r: "refs regions_trap = page_refs" "allContainers regions_trap = [5, 1, 0]"
    by (simp_all add: regions_trap_eq allContainers_def new_Set_def Set_add_def)
  have b: "\<not> contains page page_refs [5, 1, 0] 7"
    by (simp add: page_refs_def page_def spec_platform_def page_inside_def page_focusable_def)
  have c: "contains page page_refs [5, 1, 0] 6"
    by (simp add: page_refs_def page_def spec_platform_def page_inside_def page_focusable_def)
  have d: "\<not> mounted (plain_trap (Some 7))"
    by (simp add: plain_trap_def page_trap_def useFocusTrap_def)
  have t: "target (focus_on t) = t" for t by (simp add: focus_on_def)
  show ?thesis
    using a b c d
      focus_handler_escape [of regions_trap 2 "focus_on (HTMLElement 7)" 7 page]
      focus_handler_escape [of regions_trap 2 "focus_on (HTMLElement 6)" 6 page]
      focus_handler_escape [of "plain_trap (Some 7)" 2 "focus_on (HTMLElement 7)" 7 page]
    by (simp add: r t) (simp add: regions_trap_eq focus_on_def page_def spec_platform_def)
qed

subsection \<open>C3: the initial focus\<close>

text \<open>
  C3: the third watcher runs with changed values, \<open>InitialFocus\<close> on and a mounted
  container \<open>c\<close>. (i) If the initial-focus ref holds an element \<open>e\<close> and \<open>e\<close> is
  the focused element, \<open>e\<close> is recorded and nothing else changes: no call moves the
  focus. (ii) If there is no initial-focus element and the focused element is inside
  the container, it is recorded and nothing else changes. (iii) If the initial-focus
  ref holds \<open>e\<close> and \<open>e\<close> is not the focused element, \<^verbatim>\<open>focusElement\<close> is
  called on \<open>e\<close>, wherever the focus was (also inside the container), and the element
  focused after the call is recorded. And whenever the watcher returns after a call
  that moves the focus, the element recorded is the one focused in the world it
  returns.
\<close>

theorem initial_focus_precedence:
  "(\<not> every_same newValues prevValues \<and> featuresInitialFocus s \<and>
    refs s (container s) = Some c \<and> initialFocus_value s = Some e \<and>
    activeElement P (world s) = Some e \<longrightarrow>
      initial_focus_watcher P newValues prevValues s =
        Inr (s\<lparr>previousActiveElement := Some e\<rparr>)) \<and>
   (\<not> every_same newValues prevValues \<and> featuresInitialFocus s \<and>
    refs s (container s) = Some c \<and> initialFocus_value s = None \<and>
    Node_contains P c (activeElement P (world s)) \<longrightarrow>
      initial_focus_watcher P newValues prevValues s =
        Inr (s\<lparr>previousActiveElement := activeElement P (world s)\<rparr>)) \<and>
   (\<not> every_same newValues prevValues \<and> featuresInitialFocus s \<and>
    refs s (container s) = Some c \<and> initialFocus_value s = Some e \<and>
    activeElement P (world s) \<noteq> Some e \<longrightarrow>
      initial_focus_watcher P newValues prevValues s =
        Inr (s\<lparr>world := focusElement P (Some e) (world s),
               calls := calls s @ [FocusElement (Some e)],
               previousActiveElement :=
                 activeElement P (focusElement P (Some e) (world s))\<rparr>)) \<and>
   (initial_focus_watcher P newValues prevValues s = Inr s' \<and> calls s' \<noteq> calls s \<longrightarrow>
      previousActiveElement s' = activeElement P (world s'))"
proof -
  have "initial_focus_watcher P newValues prevValues s = Inr s' \<and> calls s' \<noteq> calls s \<longrightarrow>
      previousActiveElement s' = activeElement P (world s')"
    by (auto simp: initial_focus_watcher_def try_focus_def call_focusElement_def
        call_focusIn_def document_activeElement_def Let_def
        split: if_splits option.splits prod.splits)
  then show ?thesis
    by (simp add: initial_focus_watcher_def try_focus_def call_focusElement_def
        document_activeElement_def Let_def)
qed

theorem initial_focus_precedence_witness:
  "initial_focus_watcher page (initial_focus_sources (target_trap (Some 3))) []
     (target_trap (Some 3)) =
     Inr ((target_trap (Some 3))\<lparr>previousActiveElement := Some 3\<rparr>) \<and>
   initial_focus_watcher page (initial_focus_sources (plain_trap (Some 3))) []
     (plain_trap (Some 3)) =
     Inr ((plain_trap (Some 3))\<lparr>previousActiveElement := Some 3\<rparr>) \<and>
   Node_contains page 1 (Some 2) \<and>
   initial_focus_watcher page (initial_focus_sources (target_trap (Some 2))) []
     (target_trap (Some 2)) =
     Inr ((target_trap (Some 2))\<lparr>world := Some 3, calls := [FocusElement (Some 3)],
            previousActiveElement := Some 3\<rparr>) \<and>
   calls ((target_trap (Some 2))\<lparr>world := Some 3, calls := [FocusElement (Some 3)],
            previousActiveElement := Some 3\<rparr>) \<noteq> calls (target_trap (Some 2)) \<and>
   previousActiveElement
     ((target_trap (Some 2))\<lparr>world := Some 3, calls := [FocusElement (Some 3)],
        previousActiveElement := Some 3\<rparr>) =
   activeElement page
     (world ((target_trap (Some 2))\<lparr>world := Some 3, calls := [FocusElement (Some 3)],
        previousActiveElement := Some 3\<rparr>))"
proof -
  have g: "\<not> every_same (initial_focus_sources (target_trap w)) []"
          "\<not> every_same (initial_focus_sources (plain_trap w)) []" for w
    by (simp_all add: every_same_def js_index_def initial_focus_sources_def)
  have f: "featuresInitialFocus (target_trap w)" "featuresInitialFocus (plain_trap w)" for w
    by (simp_all add: featuresInitialFocus_def target_trap_def plain_trap_def page_trap_def
        useFocusTrap_def features_param_def Features_defs)
  have c: "refs (target_trap w) (container (target_trap w)) = Some 1"
          "refs (plain_trap w) (container (plain_trap w)) = Some 1" for w
    by (simp_all add: target_trap_def plain_trap_def page_trap_def useFocusTrap_def page_refs_def)
  have i: "initialFocus_value (target_trap w) = Some 3"
          "initialFocus_value (plain_trap w) = None" for w
    by (simp_all add: initialFocus_value_def target_trap_def plain_trap_def page_trap_def
        useFocusTrap_def page_refs_def options_param_def no_options_def)
  have w: "world (target_trap w) = w" "world (plain_trap w) = w"
          "calls (target_trap w) = []" for w
    by (simp_all add: target_trap_def plain_trap_def page_trap_def useFocusTrap_def)
  have p: "activeElement page = (\<lambda>w. w)"
          "focusElement page (Some e) = (\<lambda>w. Some e)" for e
    by (simp_all add: page_def spec_platform_def)
  have n: "Node_contains page 1 (Some 3)" "Node_contains page 1 (Some 2)"
    by (simp_all add: Node_contains_def page_def spec_platform_def page_inside_def
        page_focusable_def)
  show ?thesis
    using g f c i n
      initial_focus_precedence [of "initial_focus_sources (target_trap (Some 3))" "[]"
        "target_trap (Some 3)" 1 3 page]
      initial_focus_precedence [of "initial_focus_sources (plain_trap (Some 3))" "[]"
        "plain_trap (Some 3)" 1 3 page]
      initial_focus_precedence [of "initial_focus_sources (target_trap (Some 2))" "[]"
        "target_trap (Some 2)" 1 3 page
        "(target_trap (Some 2))\<lparr>world := Some 3, calls := [FocusElement (Some 3)],
            previousActiveElement := Some 3\<rparr>"]
    by (simp add: w p)
qed

subsection \<open>C6: the Tab key\<close>

text \<open>
  C6: on a key-down event, if \<open>TabLock\<close> is off, or the container ref holds
  \<^verbatim>\<open>null\<close>, or the key is not Tab, the event and the state are left as they are.
  Otherwise \<^verbatim>\<open>preventDefault\<close> is called in every case, \<^verbatim>\<open>focusIn\<close> is called
  on the container with \<open>Previous\<close> when Shift is held and \<open>Next\<close> when it is not,
  with wrap-around, and the element focused after the call is recorded exactly when
  the call reports \<open>Success\<close>; otherwise the recorded element is kept. The listener
  itself never calls \<^verbatim>\<open>focusElement\<close>. With the traversal modelled from the spec
  and a container with no focusable descendant, the focus and the recorded element
  stay as they were and the event is still suppressed.
\<close>

theorem keydown_tab:
  "(features s AND Features_TabLock = 0 \<or> refs s (container s) = None \<or> key ev \<noteq> Keys_Tab \<longrightarrow>
      keydown_handler P ev s = (ev, s)) \<and>
   (features s AND Features_TabLock \<noteq> 0 \<and> refs s (container s) = Some c \<and>
    key ev = Keys_Tab \<and>
    focusIn P c (if shiftKey ev then Previous else Next) True (world s) = (r, w) \<longrightarrow>
      keydown_handler P ev s =
        (ev\<lparr>defaultPrevented := True\<rparr>,
         s\<lparr>world := w,
           calls := calls s @ [FocusIn c (if shiftKey ev then Previous else Next) True],
           previousActiveElement :=
             (if r = Success then activeElement P w else previousActiveElement s)\<rparr>)) \<and>
   (features t AND Features_TabLock \<noteq> 0 \<and> refs t (container t) = Some c \<and>
    key ev = Keys_Tab \<and> focusable c = [] \<longrightarrow>
      keydown_handler (spec_platform focusable inside) ev t =
        (ev\<lparr>defaultPrevented := True\<rparr>,
         t\<lparr>calls := calls t @ [FocusIn c (if shiftKey ev then Previous else Next) True]\<rparr>))"
  by (auto simp: keydown_handler_def call_focusIn_def preventDefault_def
      document_activeElement_def spec_platform_def spec_focusIn_def Let_def
      split: option.splits)

theorem keydown_tab_witness:
  "keydown_handler page Escape_key regions_trap = (Escape_key, regions_trap) \<and>
   keydown_handler page (Tab_key False) regions_trap =
     ((Tab_key False)\<lparr>defaultPrevented := True\<rparr>,
      regions_trap\<lparr>world := Some 3,
        calls := [FocusIn 1 First False, FocusIn 1 Next True],
        previousActiveElement := Some 3\<rparr>) \<and>
   keydown_handler page (Tab_key True) regions_trap =
     ((Tab_key True)\<lparr>defaultPrevented := True\<rparr>,
      regions_trap\<lparr>world := Some 4,
        calls := [FocusIn 1 First False, FocusIn 1 Previous True],
        previousActiveElement := Some 4\<rparr>) \<and>
   page_focusable 9 = [] \<and>
   keydown_handler page (Tab_key False) (empty_trap (Some 7)) =
     ((Tab_key False)\<lparr>defaultPrevented := True\<rparr>,
      (empty_trap (Some 7))\<lparr>calls := [FocusIn 9 Next True]\<rparr>)"
proof -
  have k: "key Escape_key \<noteq> Keys_Tab" "key (Tab_key b) = Keys_Tab" "shiftKey (Tab_key b) = b" for b
    by (simp_all add: Escape_key_def Tab_key_def Keys_Tab_def)
  have f: "features regions_trap AND Features_TabLock \<noteq> 0"
          "refs regions_trap (container regions_trap) = Some 1"
          "world regions_trap = Some 2" "calls regions_trap = [FocusIn 1 First False]"
    by (simp_all add: regions_trap_eq Features_defs page_refs_def)
  have g: "features (empty_trap (Some 7)) AND Features_TabLock \<noteq> 0"
          "refs (empty_trap (Some 7)) (container (empty_trap (Some 7))) = Some 9"
          "calls (empty_trap (Some 7)) = []"
    by (simp_all add: empty_trap_def trap_fields Features_defs page_refs_def)
  have m: "focusIn page 1 Next True (Some 2) = (Success, Some 3)"
          "focusIn page 1 Previous True (Some 2) = (Success, Some 4)"
    by (simp_all add: page_def spec_platform_def spec_focusIn_def page_focusable_def Let_def)
  have e: "page_focusable 9 = []" by (simp add: page_focusable_def)
  have p: "activeElement page = (\<lambda>w. w)" by (simp add: page_def spec_platform_def)
  show ?thesis
    using k f g m e
      keydown_tab [of regions_trap Escape_key page 1 Success "Some 3"
        "empty_trap (Some 7)" page_focusable page_inside]
      keydown_tab [of regions_trap "Tab_key False" page 1 Success "Some 3"
        "empty_trap (Some 7)" page_focusable page_inside]
      keydown_tab [of regions_trap "Tab_key True" page 1 Success "Some 4"
        "empty_trap (Some 7)" page_focusable page_inside]
      keydown_tab [of regions_trap "Tab_key False" page 9 Success "Some 3"
        "empty_trap (Some 7)" page_focusable page_inside]
    by (simp add: p page_def [symmetric])
qed

subsection \<open>C4: a container with nothing to focus\<close>

text \<open>
  C4 as claimed: every activation with \<open>InitialFocus\<close> on, a mounted container
  with no focusable descendant and no initial-focus element throws. On the page the
  region 9 has no focusable descendant and holds the focus itself: the watcher finds
  the focus inside the container (\<^verbatim>\<open>container.value.contains(activeElement)\<close>),
  records it and returns; nothing is thrown.
\<close>

theorem focused_empty_container_counterexample:
  "featuresInitialFocus (empty_trap (Some 9)) \<and>
   refs (empty_trap (Some 9)) (container (empty_trap (Some 9))) = Some 9 \<and>
   initialFocus_value (empty_trap (Some 9)) = None \<and>
   page_focusable 9 = [] \<and>
   focusIn page 9 First False (world (empty_trap (Some 9))) = (Error, Some 9) \<and>
   \<not> every_same (initial_focus_sources (empty_trap (Some 9))) [] \<and>
   initial_focus_watcher page (initial_focus_sources (empty_trap (Some 9))) []
     (empty_trap (Some 9)) =
     Inr ((empty_trap (Some 9))\<lparr>previousActiveElement := Some 9\<rparr>)"
  by (simp add: model_defs page_defs scenario_defs Features_defs Let_def)

text \<open>
  C4, amended: an activation (changed values, \<open>InitialFocus\<close> on, a mounted
  container \<open>c\<close>) with no initial-focus element, with the focused element not
  inside the container, and for which \<^verbatim>\<open>focusIn(container, Focus.First)\<close> reports
  \<open>Error\<close>, throws the error \<open>no_focusable_message\<close> out of the callback: the
  state at the throw differs from the one before only by what \<^verbatim>\<open>focusIn\<close> did,
  no \<^verbatim>\<open>focusElement\<close> is called and nothing is recorded. With the traversal
  modelled from the spec and a container with no focusable descendant, the focus at
  the throw is the focus before. When there is no initial-focus element and the
  focused element is already inside the container, it is recorded and nothing is
  thrown, whatever the container holds. When the initial-focus ref holds an element,
  the activation returns with that element recorded, after a call of
  \<^verbatim>\<open>focusElement\<close> on it unless it has the focus already, and the watcher throws
  nothing on any run.
\<close>

theorem empty_container_throws:
  "(\<not> every_same newValues prevValues \<and> featuresInitialFocus s \<and>
    refs s (container s) = Some c \<and> initialFocus_value s = None \<and>
    \<not> Node_contains P c (activeElement P (world s)) \<and>
    focusIn P c First False (world s) = (Error, w) \<longrightarrow>
      initial_focus_watcher P newValues prevValues s =
        Inl (no_focusable_message,
             s\<lparr>world := w, calls := calls s @ [FocusIn c First False]\<rparr>)) \<and>
   (\<not> every_same newValues prevValues \<and> featuresInitialFocus t \<and>
    refs t (container t) = Some c \<and> initialFocus_value t = None \<and>
    \<not> Node_contains (spec_platform focusable inside) c (world t) \<and> focusable c = [] \<longrightarrow>
      initial_focus_watcher (spec_platform focusable inside) newValues prevValues t =
        Inl (no_focusable_message, t\<lparr>calls := calls t @ [FocusIn c First False]\<rparr>)) \<and>
   (\<not> every_same newValues prevValues \<and> featuresInitialFocus s \<and>
    refs s (container s) = Some c \<and> initialFocus_value s = None \<and>
    Node_contains P c (activeElement P (world s)) \<longrightarrow>
      initial_focus_watcher P newValues prevValues s =
        Inr (s\<lparr>previousActiveElement := activeElement P (world s)\<rparr>)) \<and>
   (\<not> every_same newValues prevValues \<and> featuresInitialFocus s \<and>
    refs s (container s) = Some c \<and> initialFocus_value s = Some e \<longrightarrow>
      initial_focus_watcher P newValues prevValues s =
        Inr (if activeElement P (world s) = Some e
             then s\<lparr>previousActiveElement := Some e\<rparr>
             else s\<lparr>world := focusElement P (Some e) (world s),
                    calls := calls s @ [FocusElement (Some e)],
                    previousActiveElement :=
                      activeElement P (focusElement P (Some e) (world s))\<rparr>)) \<and>
   (initialFocus_value s = Some e \<longrightarrow>
      (\<exists>s'. initial_focus_watcher P newValues prevValues s = Inr s'))"
  by (auto simp: initial_focus_watcher_def try_focus_def call_focusIn_def call_focusElement_def
      document_activeElement_def spec_platform_def spec_focusIn_def Node_contains_def Let_def
      split: option.splits)

theorem empty_container_throws_witness:
  "\<not> every_same (initial_focus_sources (empty_trap (Some 7))) [] \<and>
   featuresInitialFocus (empty_trap (Some 7)) \<and>
   \<not> Node_contains page 9 (Some 7) \<and> page_focusable 9 = [] \<and>
   focusIn page 9 First False (Some 7) = (Error, Some 7) \<and>
   initial_focus_watcher page (initial_focus_sources (empty_trap (Some 7))) []
     (empty_trap (Some 7)) =
     Inl (no_focusable_message, (empty_trap (Some 7))\<lparr>calls := [FocusIn 9 First False]\<rparr>) \<and>
   Node_contains page 9 (Some 9) \<and>
   initial_focus_watcher page (initial_focus_sources (empty_trap (Some 9))) []
     (empty_trap (Some 9)) =
     Inr ((empty_trap (Some 9))\<lparr>previousActiveElement := Some 9\<rparr>) \<and>
   \<not> every_same
      (initial_focus_sources
         (page_trap 3 Features_All \<lparr>initialFocus = Some 2, containers = None\<rparr> (Some 8))) [] \<and>
   initialFocus_value (page_trap 3 Features_All \<lparr>initialFocus = Some 2, containers = None\<rparr> (Some 8))
     = Some 7 \<and>
   initial_focus_watcher page
     (initial_focus_sources
        (page_trap 3 Features_All \<lparr>initialFocus = Some 2, containers = None\<rparr> (Some 8))) []
     (page_trap 3 Features_All \<lparr>initialFocus = Some 2, containers = None\<rparr> (Some 8)) =
     Inr ((page_trap 3 Features_All \<lparr>initialFocus = Some 2, containers = None\<rparr> (Some 8))
            \<lparr>world := Some 7, calls := [FocusElement (Some 7)],
              previousActiveElement := Some 7\<rparr>)"
proof -
  let ?T = "page_trap 3 Features_All \<lparr>initialFocus = Some 2, containers = None\<rparr> (Some 8)"
  have g: "\<not> every_same (initial_focus_sources (empty_trap w)) []"
          "\<not> every_same (initial_focus_sources ?T) []" for w
    by (simp_all add: every_same_def js_index_def initial_focus_sources_def)
  have f: "featuresInitialFocus (empty_trap w)"
          "refs (empty_trap w) (container (empty_trap w)) = Some 9"
          "initialFocus_value (empty_trap w) = None"
          "world (empty_trap w) = w" "calls (empty_trap w) = []" for w
    by (simp_all add: empty_trap_def trap_fields featuresInitialFocus_def initialFocus_value_def
        Features_defs page_refs_def no_options_def)
  have h: "featuresInitialFocus ?T" "refs ?T (container ?T) = Some 9"
          "initialFocus_value ?T = Some 7" "world ?T = Some 8" "calls ?T = []"
    by (simp_all add: trap_fields featuresInitialFocus_def initialFocus_value_def
        Features_defs page_refs_def)
  have n: "\<not> Node_contains page 9 (Some 7)" "page_focusable 9 = []"
          "focusIn page 9 First False (Some 7) = (Error, Some 7)"
          "Node_contains page 9 (Some 9)"
    by (simp_all add: Node_contains_def page_def spec_platform_def spec_focusIn_def
        page_inside_def page_focusable_def Let_def)
  have p: "activeElement page = (\<lambda>w. w)" "focusElement page (Some e) = (\<lambda>w. Some e)" for e
    by (simp_all add: page_def spec_platform_def)
  show ?thesis
    using g f h n
      empty_container_throws [where newValues = "initial_focus_sources (empty_trap (Some 7))"
        and prevValues = "[]" and s = "empty_trap (Some 7)" and c = 9 and P = page
        and w = "Some 7" and t = "empty_trap (Some 7)" and inside = page_inside
        and focusable = page_focusable and e = 7]
      empty_container_throws [where newValues = "initial_focus_sources (empty_trap (Some 9))"
        and prevValues = "[]" and s = "empty_trap (Some 9)" and c = 9 and P = page
        and w = "Some 7" and t = "empty_trap (Some 7)" and inside = page_inside
        and focusable = page_focusable and e = 7]
      empty_container_throws [where newValues = "initial_focus_sources ?T"
        and prevValues = "[]" and s = ?T
        and c = 9 and P = page and w = "Some 7" and t = "empty_trap (Some 7)"
        and inside = page_inside and focusable = page_focusable and e = 7]
    by (simp add: p page_def [symmetric])
qed

subsection \<open>C9: the features of the \<open>FocusTrap\<close> component\<close>

lemma arm_watcher_features: "features (arm_watcher P n p s) = features s"
  by (simp add: arm_watcher_def)

lemma restore_watcher_features: "features (restore_watcher n p s) = features s"
  by (simp add: restore_watcher_def)

lemma invalidate_features: "features (invalidate P s) = features s"
  by (simp add: invalidate_def restore_onInvalidate_def call_focusElement_def Let_def)

lemma initial_focus_watcher_features:
  "features (state_of (initial_focus_watcher P n p s)) = features s"
  by (auto simp: initial_focus_watcher_def try_focus_def call_focusElement_def call_focusIn_def
      state_of_def Let_def split: option.splits prod.splits)

lemma keydown_handler_features: "features (snd (keydown_handler P ev s)) = features s"
  by (auto simp: keydown_handler_def call_focusIn_def Let_def split: option.splits prod.splits)

lemma focus_handler_features: "features (snd (focus_handler P ev s)) = features s"
  by (simp add: focus_handler_def call_focusElement_def
      split: option.splits EventTarget.splits)

lemma step_features: "features (step P a s) = features s"
  by (cases a)
    (simp_all add: arm_watcher_features restore_watcher_features invalidate_features
      initial_focus_watcher_features keydown_handler_features focus_handler_features)

lemma run_features: "features (run P acts s) = features s"
  unfolding run_def by (induction acts arbitrary: s) (simp_all add: step_features)

lemma FocusTrap_All_undefined: "member FocusTrap ''All'' = JUndefined"
  by (simp add: member_def FocusTrap_def)

lemma FocusTrap_setup_features: "features (FocusTrap_setup P wd w i) = Features_All"
  by (simp add: FocusTrap_setup_def useFocusTrap_def FocusTrap_All_undefined features_param_def)

text \<open>
  C9: the component object has no member \<^verbatim>\<open>All\<close>, so the second argument of
  \<^verbatim>\<open>useFocusTrap\<close> in \<^verbatim>\<open>setup\<close>, \<^verbatim>\<open>FocusTrap.All\<close>, is
  \<^verbatim>\<open>undefined\<close> and the default \<^verbatim>\<open>ref(Features.All)\<close> applies: the trap of a
  \<open>FocusTrap\<close> starts with all four features on. No watcher, no listener and no
  write to the container ref or to the options changes the features, so after every
  run of such steps the features are still \<^verbatim>\<open>Features.All\<close> and each of the four
  is on.
\<close>

theorem FocusTrap_all_features:
  "member FocusTrap ''All'' = JUndefined \<and>
   features_param (member FocusTrap ''All'') = Features_All \<and>
   features (FocusTrap_setup P window_defined w props_initialFocus) = Features_All \<and>
   features (run P acts (FocusTrap_setup P window_defined w props_initialFocus)) = Features_All \<and>
   enabled (features (run P acts (FocusTrap_setup P window_defined w props_initialFocus))) f"
  by (simp add: run_features FocusTrap_setup_features FocusTrap_All_undefined enabled_All
      features_param_def)

theorem FocusTrap_all_features_witness:
  "features (run page
      [SetRef 0 (Some 1), RunArmWatcher [JBool True] [], RunRestoreWatcher [JBool True] [],
       RunInitialFocusWatcher [JElem 1, JObj 0, JNull, JBool True] [],
       Keydown (Tab_key False), FocusChange (focus_on (HTMLElement 7)), Invalidate]
      (FocusTrap_setup page True (Some 7) None)) = 30 \<and>
   enabled (features (run page
      [SetRef 0 (Some 1), RunArmWatcher [JBool True] [], RunRestoreWatcher [JBool True] [],
       RunInitialFocusWatcher [JElem 1, JObj 0, JNull, JBool True] [],
       Keydown (Tab_key False), FocusChange (focus_on (HTMLElement 7)), Invalidate]
      (FocusTrap_setup page True (Some 7) None))) RestoreFocus"
  using FocusTrap_all_features [where P = page and acts =
      "[SetRef 0 (Some 1), RunArmWatcher [JBool True] [], RunRestoreWatcher [JBool True] [],
       RunInitialFocusWatcher [JElem 1, JObj 0, JNull, JBool True] [],
       Keydown (Tab_key False), FocusChange (focus_on (HTMLElement 7)), Invalidate]"
      and window_defined = True and w = "Some 7" and props_initialFocus = None
      and f = RestoreFocus]
  by (simp add: Features_All_def Features_InitialFocus_def Features_TabLock_def
      Features_FocusLock_def Features_RestoreFocus_def enabled_def)

subsection \<open>C1: the recorded element and the allowed regions\<close>

lemma focus_handler_frame:
  "refs (snd (focus_handler P ev s)) = refs s"
  "allContainers (snd (focus_handler P ev s)) = allContainers s"
  by (simp_all add: focus_handler_def call_focusElement_def allContainers_def
      split: option.splits EventTarget.splits)

lemma focus_handler_assigns:
  "previousActiveElement (snd (focus_handler P ev s)) \<noteq> previousActiveElement s \<Longrightarrow>
   \<exists>B. target ev = HTMLElement B \<and> contains P (refs s) (allContainers s) B \<and>
       previousActiveElement (snd (focus_handler P ev s)) = Some B"
  by (auto simp: focus_handler_def call_focusElement_def
      split: option.splits EventTarget.splits if_splits)

lemma focus_handler_recorded:
  assumes "recorded_inside P s"
  shows "recorded_inside P (snd (focus_handler P ev s))"
proof (cases "previousActiveElement (snd (focus_handler P ev s)) = previousActiveElement s")
  case True
  with assms show ?thesis
    by (simp add: recorded_inside_def focus_handler_frame split: option.splits)
next
  case False
  from focus_handler_assigns [OF False] show ?thesis
    by (auto simp: recorded_inside_def focus_handler_frame)
qed

lemma focus_changes_recorded:
  "recorded_inside P s \<Longrightarrow> recorded_inside P (focus_changes P events s)"
  unfolding focus_changes_def
  by (induction events arbitrary: s) (simp_all add: focus_handler_recorded)

lemma container_region:
  "refs s (container s) = Some c \<Longrightarrow> nodeContains P c x \<Longrightarrow>
   contains P (refs s) (allContainers s) x"
  using allContainers_member [of s] by (auto simp: contains_iff)

lemma index_of_less: "index_of xs x = Some i \<Longrightarrow> i < length xs"
  by (induction xs arbitrary: i) (auto split: if_splits)

lemma spec_focusIn_Success:
  assumes "spec_focusIn focusable root d wrap w = (Success, w')"
  shows "\<exists>x \<in> set (focusable root). w' = Some x"
proof -
  have n: "focusable root \<noteq> []"
    using assms by (auto simp: spec_focusIn_def Let_def)
  then have l: "0 < length (focusable root)" by simp
  show ?thesis
    using assms n l
    by (cases d)
      (auto simp: spec_focusIn_def Let_def split: option.splits if_splits
        dest!: index_of_less intro!: nth_mem)
qed

lemma recorded_inside_or_target_frame:
  assumes "refs t = refs s" "options t = options s" "container t = container s"
    "previousActiveElement t = previousActiveElement s"
  shows "recorded_inside_or_target P t = recorded_inside_or_target P s"
  using assms
  by (auto simp: recorded_inside_or_target_def allContainers_def initialFocus_value_def
      split: option.splits)

lemma recorded_inside_or_target_set:
  assumes "contains P (refs s) (allContainers s) e \<or> initialFocus_value s = Some e"
    "refs t = refs s" "options t = options s" "container t = container s"
    "previousActiveElement t = Some e"
  shows "recorded_inside_or_target P t"
  using assms
  by (auto simp: recorded_inside_or_target_def allContainers_def initialFocus_value_def
      split: option.splits)

lemma arm_watcher_recorded:
  "recorded_inside_or_target P (arm_watcher P n p s) = recorded_inside_or_target P s"
  by (rule recorded_inside_or_target_frame) (simp_all add: arm_watcher_def)

lemma restore_watcher_recorded:
  "recorded_inside_or_target P (restore_watcher n p s) = recorded_inside_or_target P s"
  by (rule recorded_inside_or_target_frame) (simp_all add: restore_watcher_def)

lemma invalidate_recorded:
  "recorded_inside_or_target P (invalidate P s) = recorded_inside_or_target P s"
  by (rule recorded_inside_or_target_frame)
    (simp_all add: invalidate_def restore_onInvalidate_def call_focusElement_def Let_def)

lemma focus_handler_recorded_or_target:
  assumes "recorded_inside_or_target P s"
  shows "recorded_inside_or_target P (snd (focus_handler P ev s))"
proof (cases "previousActiveElement (snd (focus_handler P ev s)) = previousActiveElement s")
  case True
  have "recorded_inside_or_target P (snd (focus_handler P ev s)) = recorded_inside_or_target P s"
    by (rule recorded_inside_or_target_frame)
      (simp_all add: True focus_handler_frame, simp_all add: focus_handler_def
        call_focusElement_def split: option.splits EventTarget.splits)
  with assms show ?thesis by simp
next
  case False
  from focus_handler_assigns [OF False] obtain B where
    B: "contains P (refs s) (allContainers s) B"
       "previousActiveElement (snd (focus_handler P ev s)) = Some B"
    by blast
  show ?thesis
    by (rule recorded_inside_or_target_set [where s = s and e = B])
      (simp_all add: B focus_handler_frame, simp_all add: focus_handler_def
        call_focusElement_def split: option.splits EventTarget.splits)
qed

lemma spec_platform_fields:
  "activeElement (spec_platform focusable inside) w = w"
  "focusElement (spec_platform focusable inside) (Some e) w = Some e"
  "focusIn (spec_platform focusable inside) = spec_focusIn focusable"
  "nodeContains (spec_platform focusable inside) = inside"
  by (simp_all add: spec_platform_def)

lemma keydown_handler_recorded:
  assumes wf: "\<forall>root. \<forall>x \<in> set (focusable root). inside root x"
    and J: "recorded_inside_or_target (spec_platform focusable inside) s"
  shows "recorded_inside_or_target (spec_platform focusable inside)
           (snd (keydown_handler (spec_platform focusable inside) ev s))"
proof (cases "features s AND Features_TabLock = 0 \<or> refs s (container s) = None \<or>
    key ev \<noteq> Keys_Tab")
  case True
  then have "keydown_handler (spec_platform focusable inside) ev s = (ev, s)"
    by (auto simp: keydown_handler_def split: option.splits)
  with J show ?thesis by simp
next
  case False
  then obtain c where c: "refs s (container s) = Some c" by auto
  obtain r w' where
    f: "spec_focusIn focusable c (if shiftKey ev then Previous else Next) True (world s) = (r, w')"
    by (cases "spec_focusIn focusable c (if shiftKey ev then Previous else Next) True (world s)")
  let ?t = "snd (keydown_handler (spec_platform focusable inside) ev s)"
  have k: "refs ?t = refs s" "options ?t = options s" "container ?t = container s"
    "previousActiveElement ?t = (if r = Success then w' else previousActiveElement s)"
    using False c f
    by (simp_all add: keydown_handler_def call_focusIn_def document_activeElement_def
        spec_platform_fields Let_def)
  show ?thesis
  proof (cases "r = Success")
    case True
    with f obtain x where x: "x \<in> set (focusable c)" "w' = Some x"
      using spec_focusIn_Success by blast
    with wf have "inside c x" by blast
    then have "contains (spec_platform focusable inside) (refs s) (allContainers s) x"
      using container_region [OF c, of "spec_platform focusable inside" x]
      by (simp add: spec_platform_fields)
    then show ?thesis
      using k True x
      by (intro recorded_inside_or_target_set [where s = s and e = x]) simp_all
  next
    case False
    with k have "recorded_inside_or_target (spec_platform focusable inside) ?t =
      recorded_inside_or_target (spec_platform focusable inside) s"
      by (intro recorded_inside_or_target_frame) simp_all
    with J show ?thesis by simp
  qed
qed

lemma try_focus_recorded:
  assumes wf: "\<forall>root. \<forall>x \<in> set (focusable root). inside root x"
    and J: "recorded_inside_or_target (spec_platform focusable inside) s"
    and c: "refs s (container s) = Some c"
  shows "recorded_inside_or_target (spec_platform focusable inside)
           (state_of (try_focus (spec_platform focusable inside) c s))"
proof (cases "initialFocus_value s")
  case (Some e)
  let ?t = "state_of (try_focus (spec_platform focusable inside) c s)"
  have k: "refs ?t = refs s" "options ?t = options s" "container ?t = container s"
    "previousActiveElement ?t = Some e"
    using Some
    by (simp_all add: try_focus_def call_focusElement_def document_activeElement_def
        spec_platform_fields state_of_def Let_def)
  show ?thesis
    using k Some by (intro recorded_inside_or_target_set [where s = s and e = e]) simp_all
next
  case None
  obtain r w' where f: "spec_focusIn focusable c First False (world s) = (r, w')"
    by (cases "spec_focusIn focusable c First False (world s)")
  let ?t = "state_of (try_focus (spec_platform focusable inside) c s)"
  have k: "refs ?t = refs s" "options ?t = options s" "container ?t = container s"
    "previousActiveElement ?t = (if r = Error then previousActiveElement s else w')"
    using None f
    by (simp_all add: try_focus_def call_focusIn_def document_activeElement_def
        spec_platform_fields state_of_def Let_def)
  show ?thesis
  proof (cases "r = Error")
    case True
    with k have "recorded_inside_or_target (spec_platform focusable inside) ?t =
      recorded_inside_or_target (spec_platform focusable inside) s"
      by (intro recorded_inside_or_target_frame) simp_all
    with J show ?thesis by simp
  next
    case False
    then have "r = Success" by (cases r) simp_all
    with f obtain x where x: "x \<in> set (focusable c)" "w' = Some x"
      using spec_focusIn_Success by blast
    with wf have "inside c x" by blast
    then have "contains (spec_platform focusable inside) (refs s) (allContainers s) x"
      using container_region [OF c, of "spec_platform focusable inside" x]
      by (simp add: spec_platform_fields)
    then show ?thesis
      using k False x
      by (intro recorded_inside_or_target_set [where s = s and e = x]) simp_all
  qed
qed

lemma initial_focus_watcher_recorded:
  assumes wf: "\<forall>root. \<forall>x \<in> set (focusable root). inside root x"
    and J: "recorded_inside_or_target (spec_platform focusable inside) s"
  shows "recorded_inside_or_target (spec_platform focusable inside)
           (state_of (initial_focus_watcher (spec_platform focusable inside) n p s))"
proof (cases "every_same n p \<or> \<not> featuresInitialFocus s \<or> refs s (container s) = None")
  case True
  then have "state_of (initial_focus_watcher (spec_platform focusable inside) n p s) = s"
    by (auto simp: initial_focus_watcher_def state_of_def split: option.splits)
  with J show ?thesis by simp
next
  case False
  then obtain c where c: "refs s (container s) = Some c" by auto
  let ?P = "spec_platform focusable inside"
  show ?thesis
  proof (cases "initialFocus_value s")
    case (Some e)
    show ?thesis
    proof (cases "world s = Some e")
      case True
      with False c Some have
        "state_of (initial_focus_watcher ?P n p s) = s\<lparr>previousActiveElement := Some e\<rparr>"
        by (simp add: initial_focus_watcher_def state_of_def document_activeElement_def
            spec_platform_fields)
      then show ?thesis
        using Some by (intro recorded_inside_or_target_set [where s = s and e = e]) simp_all
    next
      case ne: False
      with False c Some have
        "state_of (initial_focus_watcher ?P n p s) = state_of (try_focus ?P c s)"
        by (simp add: initial_focus_watcher_def document_activeElement_def spec_platform_fields)
      then show ?thesis using try_focus_recorded [OF wf J c] by simp
    qed
  next
    case None
    show ?thesis
    proof (cases "Node_contains ?P c (world s)")
      case True
      then obtain a where a: "world s = Some a" "inside c a"
        by (auto simp: Node_contains_def spec_platform_fields split: option.splits)
      with False c None True have
        "state_of (initial_focus_watcher ?P n p s) = s\<lparr>previousActiveElement := Some a\<rparr>"
        by (simp add: initial_focus_watcher_def state_of_def document_activeElement_def
            spec_platform_fields)
      moreover have "contains ?P (refs s) (allContainers s) a"
        using container_region [OF c, of ?P a] a by (simp add: spec_platform_fields)
      ultimately show ?thesis
        by (intro recorded_inside_or_target_set [where s = s and e = a]) simp_all
    next
      case nc: False
      with False c None have
        "state_of (initial_focus_watcher ?P n p s) = state_of (try_focus ?P c s)"
        by (simp add: initial_focus_watcher_def document_activeElement_def spec_platform_fields)
      then show ?thesis using try_focus_recorded [OF wf J c] by simp
    qed
  qed
qed

lemma step_recorded:
  assumes wf: "\<forall>root. \<forall>x \<in> set (focusable root). inside root x"
    and J: "recorded_inside_or_target (spec_platform focusable inside) s"
    and a: "hook_action a"
  shows "recorded_inside_or_target (spec_platform focusable inside)
           (step (spec_platform focusable inside) a s)"
proof (cases a)
  case (SetWorld w)
  have "recorded_inside_or_target (spec_platform focusable inside) (s\<lparr>world := w\<rparr>) =
    recorded_inside_or_target (spec_platform focusable inside) s"
    by (rule recorded_inside_or_target_frame) simp_all
  with J SetWorld show ?thesis by simp
qed (use a J in \<open>simp_all add: arm_watcher_recorded restore_watcher_recorded
      invalidate_recorded initial_focus_watcher_recorded [OF wf]
      keydown_handler_recorded [OF wf] focus_handler_recorded_or_target\<close>)

lemma run_recorded:
  assumes wf: "\<forall>root. \<forall>x \<in> set (focusable root). inside root x"
  shows "recorded_inside_or_target (spec_platform focusable inside) s \<Longrightarrow>
    list_all hook_action acts \<Longrightarrow>
    recorded_inside_or_target (spec_platform focusable inside)
      (run (spec_platform focusable inside) acts s)"
  unfolding run_def
  by (induction acts arbitrary: s) (simp_all add: step_recorded [OF wf])

lemma step_frame:
  "hook_action a \<Longrightarrow> refs (step P a s) = refs s \<and> options (step P a s) = options s \<and>
     container (step P a s) = container s"
  by (cases a)
    (auto simp: arm_watcher_def restore_watcher_def invalidate_def restore_onInvalidate_def
      call_focusElement_def call_focusIn_def initial_focus_watcher_def try_focus_def
      state_of_def keydown_handler_def focus_handler_def Let_def
      split: option.splits prod.splits EventTarget.splits)

lemma run_frame:
  "list_all hook_action acts \<Longrightarrow>
   refs (run P acts s) = refs s \<and> options (run P acts s) = options s \<and>
     container (run P acts s) = container s"
  unfolding run_def
  by (induction acts arbitrary: s) (simp_all add: step_frame)

text \<open>
  C1 as claimed: while the trap is mounted and \<open>FocusLock\<close> is on, after each
  focus event the element recorded in \<open>previousActiveElement\<close> is inside one of the
  allowed regions. The dialog of the page is given the outside button 7 as its
  initial focus and is mounted while 7 has the focus: the third watcher records 7
  without any check. When the focus then goes to the outside button 8, the listener
  calls \<^verbatim>\<open>focusElement\<close> on 7 and leaves 7 recorded: the trap is mounted,
  \<open>FocusLock\<close> is on, and the recorded element is in none of the allowed regions.
\<close>

theorem outside_initial_focus_counterexample:
  "mounted (state_of (onMounted page (outside_target_trap (Some 7)))) \<and>
   features (state_of (onMounted page (outside_target_trap (Some 7)))) AND Features_FocusLock \<noteq> 0 \<and>
   previousActiveElement (state_of (onMounted page (outside_target_trap (Some 7)))) = Some 7 \<and>
   mounted escaped_trap \<and>
   features escaped_trap AND Features_FocusLock \<noteq> 0 \<and>
   previousActiveElement escaped_trap = Some 7 \<and>
   calls escaped_trap = [FocusElement (Some 7)] \<and>
   allContainers escaped_trap = [0] \<and>
   refs escaped_trap 0 = Some 1 \<and>
   \<not> nodeContains page 1 7 \<and>
   \<not> contains page (refs escaped_trap) (allContainers escaped_trap) 7 \<and>
   \<not> recorded_inside page escaped_trap"
  by (simp add: model_defs page_defs scenario_defs Features_defs Let_def)

text \<open>
  C1, amended: the recorded element is inside an allowed region or is the explicit
  initial-focus target. On a page where \<^verbatim>\<open>focusElement\<close> focuses the element it
  is given and \<^verbatim>\<open>focusIn\<close> moves to a focusable descendant, which lies inside its
  root (the traversal modelled from the spec), start from the state
  \<^verbatim>\<open>useFocusTrap\<close> sets up and take any sequence of steps of the hook and of the
  page (runs of the three watchers, the teardown, key-down events, focus events, the
  page moving the focus) with the refs and the options left alone. After each step
  the element recorded in \<open>previousActiveElement\<close> is unset, or inside an allowed
  region, or the element the initial-focus ref holds; so when there is no
  initial-focus element, or it is itself inside an allowed region, the recorded
  element is never outside all of them. On every platform, the focus listener assigns
  only a target that \<open>contains\<close> finds in an allowed region, and a sequence of
  focus events keeps a recorded element inside once it is inside.
\<close>

theorem recorded_inside_or_initial_target:
  "(descendants_inside focusable inside \<and> list_all hook_action acts \<longrightarrow>
      recorded_inside_or_target (spec_platform focusable inside)
        (run (spec_platform focusable inside) (take n acts)
           (useFocusTrap (spec_platform focusable inside) window_defined store w c
              features_arg options_arg))) \<and>
   (descendants_inside focusable inside \<and> list_all hook_action acts \<and>
    (case initialFocus_value
            (useFocusTrap (spec_platform focusable inside) window_defined store w c
               features_arg options_arg) of
       None \<Rightarrow> True
     | Some e \<Rightarrow>
         contains (spec_platform focusable inside) store
           (allContainers
              (useFocusTrap (spec_platform focusable inside) window_defined store w c
                 features_arg options_arg)) e) \<longrightarrow>
      recorded_inside (spec_platform focusable inside)
        (run (spec_platform focusable inside) (take n acts)
           (useFocusTrap (spec_platform focusable inside) window_defined store w c
              features_arg options_arg))) \<and>
   (previousActiveElement (snd (focus_handler P ev s)) \<noteq> previousActiveElement s \<longrightarrow>
      (\<exists>B. target ev = HTMLElement B \<and> contains P (refs s) (allContainers s) B \<and>
           previousActiveElement (snd (focus_handler P ev s)) = Some B)) \<and>
   (recorded_inside P s \<longrightarrow>
      (\<forall>k. recorded_inside P (focus_changes P (take k events) s)))"
proof -
  let ?P = "spec_platform focusable inside"
  let ?s = "useFocusTrap ?P window_defined store w c features_arg options_arg"
  let ?r = "run ?P (take n acts) ?s"
  have init: "recorded_inside_or_target ?P ?s"
    by (simp add: recorded_inside_or_target_def useFocusTrap_def)
  have J: "recorded_inside_or_target ?P ?r"
    if "descendants_inside focusable inside" "list_all hook_action acts"
  proof -
    from that have "list_all hook_action (take n acts)"
      by (auto simp: list_all_iff dest: in_set_takeD)
    with that show ?thesis
      using run_recorded [OF _ init] by (simp add: descendants_inside_def)
  qed
  have I: "recorded_inside ?P ?r"
    if wf: "descendants_inside focusable inside" and acts: "list_all hook_action acts"
      and tgt: "case initialFocus_value ?s of None \<Rightarrow> True
        | Some e \<Rightarrow> contains ?P store (allContainers ?s) e"
  proof -
    from acts have "list_all hook_action (take n acts)"
      by (auto simp: list_all_iff dest: in_set_takeD)
    from run_frame [OF this, of ?P ?s]
    have f: "refs ?r = refs ?s" "allContainers ?r = allContainers ?s"
      "initialFocus_value ?r = initialFocus_value ?s"
      by (auto simp: allContainers_def initialFocus_value_def split: option.splits)
    have st: "refs ?s = store" by (simp add: useFocusTrap_def)
    from J [OF wf acts] tgt show ?thesis
      unfolding recorded_inside_or_target_def recorded_inside_def f st
      by (auto split: option.splits)
  qed
  show ?thesis
    using J I focus_handler_assigns [of P ev s] focus_changes_recorded [of P s]
    by blast
qed

theorem recorded_inside_or_initial_target_witness:
  "descendants_inside page_focusable page_inside \<and>
   list_all hook_action regions_life \<and>
   recorded_inside_or_target page
     (run page (take 6 regions_life)
        (page_trap 0 Features_All \<lparr>initialFocus = None, containers = Some [5, 1]\<rparr> (Some 7))) \<and>
   recorded_inside page
     (run page (take 4 regions_life)
        (page_trap 0 Features_All \<lparr>initialFocus = None, containers = Some [5, 1]\<rparr> (Some 7))) \<and>
   recorded_inside page
     (run page (take 6 regions_life)
        (page_trap 0 Features_All \<lparr>initialFocus = None, containers = Some [5, 1]\<rparr> (Some 7))) \<and>
   previousActiveElement
     (run page (take 4 regions_life)
        (page_trap 0 Features_All \<lparr>initialFocus = None, containers = Some [5, 1]\<rparr> (Some 7)))
     = Some 3 \<and>
   previousActiveElement
     (run page (take 6 regions_life)
        (page_trap 0 Features_All \<lparr>initialFocus = None, containers = Some [5, 1]\<rparr> (Some 7)))
     = Some 6 \<and>
   recorded_inside page regions_trap \<and>
   recorded_inside page
     (focus_changes page
        (take 2 [focus_on (HTMLElement 7), focus_on (HTMLElement 6), focus_on NullTarget])
        regions_trap) \<and>
   previousActiveElement regions_trap = Some 2 \<and>
   previousActiveElement (snd (focus_handler page (focus_on (HTMLElement 6)) regions_trap)) = Some 6 \<and>
   contains page (refs regions_trap) (allContainers regions_trap) 6"
proof -
  let ?s = "page_trap 0 Features_All \<lparr>initialFocus = None, containers = Some [5, 1]\<rparr> (Some 7)"
  have wf: "descendants_inside page_focusable page_inside"
    by (simp add: descendants_inside_def page_inside_def)
  have acts: "list_all hook_action regions_life"
    by (simp add: regions_life_def)
  have tgt: "initialFocus_value ?s = None"
    by (simp add: initialFocus_value_def trap_fields)
  have p4: "previousActiveElement (run page (take 4 regions_life) ?s) = Some 3"
    by (simp add: regions_life_def model_defs page_defs Features_defs Let_def)
  have p6: "previousActiveElement (run page (take 6 regions_life) ?s) = Some 6"
    by (simp add: regions_life_def model_defs page_defs Features_defs Let_def)
  have r: "refs regions_trap = page_refs" "allContainers regions_trap = [5, 1, 0]"
          "previousActiveElement regions_trap = Some 2"
    by (simp_all add: regions_trap_eq allContainers_def new_Set_def Set_add_def)
  have f: "features regions_trap = 30" "mounted regions_trap"
    by (simp_all add: regions_trap_eq)
  have a: "recorded_inside page regions_trap"
    by (simp add: recorded_inside_def r page_refs_def page_def spec_platform_def
        page_inside_def page_focusable_def)
  have b: "previousActiveElement (snd (focus_handler page (focus_on (HTMLElement 6)) regions_trap))
      = Some 6"
    by (simp add: focus_handler_def r f Features_defs Set_size_def focus_on_def
        page_refs_def page_def spec_platform_def page_inside_def page_focusable_def
        call_focusElement_def)
  note inst = recorded_inside_or_initial_target [where focusable = page_focusable
      and inside = page_inside and acts = regions_life and window_defined = True
      and store = page_refs and w = "Some 7" and c = 0 and features_arg = "JRef Features_All"
      and options_arg = "Some \<lparr>initialFocus = None, containers = Some [5, 1]\<rparr>"
      and P = page and s = regions_trap and ev = "focus_on (HTMLElement 6)"
      and events = "[focus_on (HTMLElement 7), focus_on (HTMLElement 6), focus_on NullTarget]"]
  have J: "recorded_inside_or_target page (run page (take n regions_life) ?s)" for n
    unfolding page_trap_def page_def
    using inst [where n = n] wf acts by simp
  have I: "recorded_inside page (run page (take n regions_life) ?s)" for n
    unfolding page_trap_def page_def
    using inst [where n = n] wf acts tgt [unfolded page_trap_def page_def] by simp
  have F: "recorded_inside page
     (focus_changes page
        (take 2 [focus_on (HTMLElement 7), focus_on (HTMLElement 6), focus_on NullTarget])
        regions_trap)"
    using inst [where n = 0] a by blast
  have C: "contains page (refs regions_trap) (allContainers regions_trap) 6"
    using inst [where n = 0] b r by (auto simp: focus_on_def)
  show ?thesis
    using wf acts p4 p6 a b r J [of 6] I [of 4] I [of 6] F C by simp
qed

subsection \<open>C7: arming, and the flag going off and on again\<close>

lemma every_same_one: "every_same [v] prevValues = (js_index prevValues 0 = v)"
  by (simp add: every_same_def)

lemma arm_watcher_same: "every_same newValues prevValues \<Longrightarrow> arm_watcher P newValues prevValues s = s"
  by (simp add: arm_watcher_def)

lemma arm_watcher_off: "\<not> featuresRestoreFocus s \<Longrightarrow> arm_watcher P newValues prevValues s = s"
  by (simp add: arm_watcher_def)

text \<open>
  The callback of the first watcher by itself is edge-triggered: run with the values it
  saw before it changes nothing, whenever it changes the state the values differ and
  the flag is on, and with the current flag as the new value it fires exactly when
  the flag is on and the previous value was off or, on the first run, absent.
\<close>

lemma arm_watcher_edge:
  "(every_same newValues prevValues \<longrightarrow> arm_watcher P newValues prevValues s = s) \<and>
   (arm_watcher P newValues prevValues s \<noteq> s \<longrightarrow>
      \<not> every_same newValues prevValues \<and> featuresRestoreFocus s) \<and>
   arm_watcher P [JBool (featuresRestoreFocus s)] [JBool b] s =
     (if featuresRestoreFocus s \<and> \<not> b
      then s\<lparr>mounted := True, restoreElement := activeElement P (world s)\<rparr> else s) \<and>
   arm_watcher P [JBool (featuresRestoreFocus s)] [] s =
     (if featuresRestoreFocus s
      then s\<lparr>mounted := True, restoreElement := activeElement P (world s)\<rparr> else s)"
proof -
  have a: "arm_watcher P newValues prevValues s \<noteq> s \<longrightarrow>
      \<not> every_same newValues prevValues \<and> featuresRestoreFocus s"
    using arm_watcher_same arm_watcher_off by blast
  have b: "arm_watcher P [JBool (featuresRestoreFocus s)] [JBool b] s =
     (if featuresRestoreFocus s \<and> \<not> b
      then s\<lparr>mounted := True, restoreElement := activeElement P (world s)\<rparr> else s)"
    by (auto simp: arm_watcher_def every_same_one js_index_def document_activeElement_def)
  have c: "arm_watcher P [JBool (featuresRestoreFocus s)] [] s =
     (if featuresRestoreFocus s
      then s\<lparr>mounted := True, restoreElement := activeElement P (world s)\<rparr> else s)"
    by (auto simp: arm_watcher_def every_same_one js_index_def document_activeElement_def)
  show ?thesis using a b c arm_watcher_same by blast
qed

lemma initial_focus_watcher_keeps:
  "mounted (state_of (initial_focus_watcher P n p s)) = mounted s"
  "restoreElement (state_of (initial_focus_watcher P n p s)) = restoreElement s"
  "onInvalidate (state_of (initial_focus_watcher P n p s)) = onInvalidate s"
  by (auto simp: initial_focus_watcher_def try_focus_def call_focusElement_def call_focusIn_def
      state_of_def Let_def split: option.splits prod.splits)

lemma state_of_Inr: "state_of (Inr s) = s"
  by (simp add: state_of_def)

lemma set_features_off:
  assumes "onInvalidate s" "featuresRestoreFocus s" "off AND Features_RestoreFocus = 0"
  shows "features (state_of (set_features P off s)) = off"
    and "onInvalidate (state_of (set_features P off s))"
  using assms
  by (simp_all add: set_features_def Let_def state_of_Inr initial_focus_watcher_keeps
      initial_focus_watcher_features featuresRestoreFocus_def arm_watcher_def
      restore_watcher_def invalidate_def restore_onInvalidate_def call_focusElement_def)

lemma set_features_on:
  assumes "onInvalidate t" "\<not> featuresRestoreFocus t" "on AND Features_RestoreFocus \<noteq> 0"
  shows "features (state_of (set_features P on t)) = on"
    and "\<not> mounted (state_of (set_features P on t))"
    and "restoreElement (state_of (set_features P on t)) = None"
    and "onInvalidate (state_of (set_features P on t))"
  using assms
  by (simp_all add: set_features_def Let_def state_of_Inr initial_focus_watcher_keeps
      initial_focus_watcher_features featuresRestoreFocus_def arm_watcher_def
      restore_watcher_def invalidate_def restore_onInvalidate_def call_focusElement_def
      restore_sources_def every_same_def js_index_def)

lemma focus_handler_unmounted: "\<not> mounted s \<Longrightarrow> focus_handler P ev s = (ev, s)"
  by (simp add: focus_handler_def split: option.splits)

text \<open>
  C7: the claim is that the capture is edge-triggered and that, consequently, when
  \<open>RestoreFocus\<close> goes off and then on again the trap holds a fresh restore target,
  the element focused at the second on-transition, and is mounted. The code does not
  get there. The write that turns the flag on again re-runs both watchers of
  \<open>featuresRestoreFocus\<close>: the first captures the focused element and sets
  \<open>mounted\<close>; the job of the second then calls the closure it handed to
  \<^verbatim>\<open>onInvalidate\<close> at an earlier run, which finds \<open>mounted\<close> true, calls
  \<^verbatim>\<open>focusElement\<close> on the fresh capture, sets \<open>mounted\<close> to false and clears
  \<open>restoreElement\<close>. So for every trap whose second watcher has handed over its
  closure and whose \<open>RestoreFocus\<close> is on: after the flag went off and on again the
  features are on, the trap is not mounted and holds no restore target, the focus
  listener ignores every event, and the closure, called again at unmount, restores
  nothing.
\<close>

theorem restore_toggle_disarms:
  "onInvalidate s \<and> featuresRestoreFocus s \<and>
   off AND Features_RestoreFocus = 0 \<and> on AND Features_RestoreFocus \<noteq> 0 \<longrightarrow>
     features (toggle P off on w s) = on \<and>
     \<not> mounted (toggle P off on w s) \<and>
     restoreElement (toggle P off on w s) = None \<and>
     focus_handler P ev (toggle P off on w s) = (ev, toggle P off on w s) \<and>
     invalidate P (toggle P off on w s) = toggle P off on w s"
proof
  assume a: "onInvalidate s \<and> featuresRestoreFocus s \<and>
   off AND Features_RestoreFocus = 0 \<and> on AND Features_RestoreFocus \<noteq> 0"
  define t where "t = (state_of (set_features P off s))\<lparr>world := w\<rparr>"
  have t: "onInvalidate t" "\<not> featuresRestoreFocus t"
    using a set_features_off [of s off P]
    by (simp_all add: t_def featuresRestoreFocus_def)
  have r: "toggle P off on w s = state_of (set_features P on t)"
    by (simp add: toggle_def t_def)
  have on: "on AND Features_RestoreFocus \<noteq> 0" using a by simp
  note f = set_features_on [OF t on, of P]
  show "features (toggle P off on w s) = on \<and>
     \<not> mounted (toggle P off on w s) \<and>
     restoreElement (toggle P off on w s) = None \<and>
     focus_handler P ev (toggle P off on w s) = (ev, toggle P off on w s) \<and>
     invalidate P (toggle P off on w s) = toggle P off on w s"
    unfolding r using f
    by (simp add: focus_handler_unmounted invalidate_def restore_onInvalidate_def)
qed

theorem restore_toggle_disarms_witness:
  "onInvalidate regions_trap \<and> featuresRestoreFocus regions_trap \<and>
   mounted regions_trap \<and> restoreElement regions_trap = Some 7 \<and>
   no_RestoreFocus AND Features_RestoreFocus = 0 \<and>
   Features_All AND Features_RestoreFocus \<noteq> 0 \<and>
   toggle page no_RestoreFocus Features_All (Some 8) regions_trap =
     regions_trap\<lparr>mounted := False, restoreElement := None, world := Some 8,
       calls := [FocusIn 1 First False, FocusElement (Some 7), FocusElement (Some 8)]\<rparr> \<and>
   features (toggle page no_RestoreFocus Features_All (Some 8) regions_trap) = Features_All \<and>
   \<not> mounted (toggle page no_RestoreFocus Features_All (Some 8) regions_trap) \<and>
   restoreElement (toggle page no_RestoreFocus Features_All (Some 8) regions_trap) = None \<and>
   focus_handler page (focus_on (HTMLElement 7))
     (toggle page no_RestoreFocus Features_All (Some 8) regions_trap) =
     (focus_on (HTMLElement 7), toggle page no_RestoreFocus Features_All (Some 8) regions_trap) \<and>
   invalidate page (toggle page no_RestoreFocus Features_All (Some 8) regions_trap) =
     toggle page no_RestoreFocus Features_All (Some 8) regions_trap"
proof -
  have a: "onInvalidate regions_trap \<and> featuresRestoreFocus regions_trap \<and>
     mounted regions_trap \<and> restoreElement regions_trap = Some 7"
    by (simp add: regions_trap_eq featuresRestoreFocus_def Features_defs)
  have b: "no_RestoreFocus AND Features_RestoreFocus = 0 \<and>
     Features_All AND Features_RestoreFocus \<noteq> 0"
    by (simp add: no_RestoreFocus_def Features_defs)
  have c: "toggle page no_RestoreFocus Features_All (Some 8) regions_trap =
     regions_trap\<lparr>mounted := False, restoreElement := None, world := Some 8,
       calls := [FocusIn 1 First False, FocusElement (Some 7), FocusElement (Some 8)]\<rparr>"
    by (simp add: toggle_def set_features_def no_RestoreFocus_def regions_trap_eq model_defs
        page_defs Features_defs Let_def)
  show ?thesis
    using a b c
      restore_toggle_disarms [of regions_trap no_RestoreFocus Features_All page "Some 8"
        "focus_on (HTMLElement 7)"]
    by metis
qed

end
